theory Spec2Isabelle
  imports Main "HOL-Library.Sublist"
begin

section \<open>JavaScript strings and values\<close>

text \<open>
  A JavaScript string is modelled as an Isabelle \<open>string\<close>: each \<open>char\<close> stands for the
  code unit of the same number, so the model covers the texts whose code units are below 256
  (ASCII and Latin-1). An attribute of a JSON object that may be missing is an \<open>option\<close>;
  \<open>None\<close> is the absent attribute (\<open>undefined\<close>).
\<close>

datatype jsval = Undefined | Null | Bool bool | Num int | Str string

text \<open>\<open>String.prototype.toLowerCase\<close> on one code unit: A-Z and the Latin-1 capitals.\<close>

definition toLowerChar :: "char \<Rightarrow> char" where
  "toLowerChar c =
     (let n = (of_char c :: nat)
      in if (65 \<le> n \<and> n \<le> 90) \<or> (192 \<le> n \<and> n \<le> 222 \<and> n \<noteq> 215)
         then char_of (n + 32) else c)"

definition toLowerCase :: "string \<Rightarrow> string" where
  "toLowerCase s = map toLowerChar s"

text \<open>The regular-expression classes \<open>\s\<close> and \<open>\w\<close>.\<close>

definition isSpace :: "char \<Rightarrow> bool" where
  "isSpace c = ((of_char c :: nat) \<in> {9, 10, 11, 12, 13, 32, 160})"

definition isWord :: "char \<Rightarrow> bool" where
  "isWord c =
     (let n = (of_char c :: nat)
      in (48 \<le> n \<and> n \<le> 57) \<or> (65 \<le> n \<and> n \<le> 90) \<or> (97 \<le> n \<and> n \<le> 122) \<or> n = 95)"

definition isHyphen :: "char \<Rightarrow> bool" where
  "isHyphen c = (c = CHR ''-'')"

text \<open>\<open>s.startsWith(p)\<close>, \<open>s.includes(p)\<close>, \<open>xs.join(sep)\<close>, \<open>s.split(c)\<close>.\<close>

fun startsWith :: "string \<Rightarrow> string \<Rightarrow> bool" where
  "startsWith s [] = True"
| "startsWith [] (p # ps) = False"
| "startsWith (c # cs) (p # ps) = (c = p \<and> startsWith cs ps)"

fun includesText :: "string \<Rightarrow> string \<Rightarrow> bool" where
  "includesText [] p = (p = [])"
| "includesText (c # cs) p = (startsWith (c # cs) p \<or> includesText cs p)"

fun join :: "string \<Rightarrow> string list \<Rightarrow> string" where
  "join sep [] = []"
| "join sep [x] = x"
| "join sep (x # y # ys) = x @ sep @ join sep (y # ys)"

fun split :: "char \<Rightarrow> string \<Rightarrow> string list" where
  "split d [] = [[]]"
| "split d (c # cs) =
     (if c = d then [] # split d cs
      else (case split d cs of [] \<Rightarrow> [[c]] | w # ws \<Rightarrow> (c # w) # ws))"

text \<open>\<open>s.replace(/c/g, r)\<close> for a single character \<open>c\<close>.\<close>

definition replaceChar :: "char \<Rightarrow> string \<Rightarrow> string \<Rightarrow> string" where
  "replaceChar c r s = concat (map (\<lambda>x. if x = c then r else [x]) s)"

text \<open>Decimal digits of a number, as a template literal prints it.\<close>

fun stringOfNat :: "nat \<Rightarrow> string" where
  "stringOfNat n =
     (if n < 10 then [''0123456789'' ! n]
      else stringOfNat (n div 10) @ [''0123456789'' ! (n mod 10)])"

definition stringOfInt :: "int \<Rightarrow> string" where
  "stringOfInt i = (if i < 0 then CHR ''-'' # stringOfNat (nat (- i)) else stringOfNat (nat i))"

text \<open>The text a template literal inserts for a value.\<close>

fun toStr :: "jsval \<Rightarrow> string" where
  "toStr Undefined = ''undefined''"
| "toStr Null = ''null''"
| "toStr (Bool b) = (if b then ''true'' else ''false'')"
| "toStr (Num i) = stringOfInt i"
| "toStr (Str s) = s"

definition interp :: "string option \<Rightarrow> string" where
  "interp v = (case v of None \<Rightarrow> ''undefined'' | Some s \<Rightarrow> s)"

text \<open>Truthiness of an optional string, and \<open>a || b\<close> on it.\<close>

definition truthy :: "string option \<Rightarrow> bool" where
  "truthy v = (case v of None \<Rightarrow> False | Some s \<Rightarrow> s \<noteq> [])"

definition orElse :: "string option \<Rightarrow> string \<Rightarrow> string" where
  "orElse v d = (case v of None \<Rightarrow> d | Some s \<Rightarrow> (if s = [] then d else s))"

section \<open>Identifiers: \<open>slugify\<close>, \<open>getFolderId\<close>, \<open>getEndpointId\<close>\<close>

text \<open>
  \<open>slugify\<close> is a chain of five \<open>replace\<close> calls after \<open>toLowerCase\<close>. Each call is one
  function here, in the order of the source:
  \<open>/\s+/g\<close> to a hyphen, \<open>/[^\w\-]+/g\<close> removed, \<open>/\-\-+/g\<close> to a hyphen,
  \<open>/^-+/\<close> removed, \<open>/-+$/\<close> removed.
\<close>

function replaceSpaces :: "string \<Rightarrow> string" where
  "replaceSpaces [] = []"
| "replaceSpaces (c # cs) =
     (if isSpace c then CHR ''-'' # replaceSpaces (dropWhile isSpace cs)
      else c # replaceSpaces cs)"
  by pat_completeness auto
termination
  by (relation "measure length") (auto simp: less_Suc_eq_le length_dropWhile_le)

definition stripNonWord :: "string \<Rightarrow> string" where
  "stripNonWord s = filter (\<lambda>c. isWord c \<or> isHyphen c) s"

function collapseHyphens :: "string \<Rightarrow> string" where
  "collapseHyphens [] = []"
| "collapseHyphens (c # cs) =
     (if isHyphen c then CHR ''-'' # collapseHyphens (dropWhile isHyphen cs)
      else c # collapseHyphens cs)"
  by pat_completeness auto
termination
  by (relation "measure length") (auto simp: less_Suc_eq_le length_dropWhile_le)

definition trimStart :: "string \<Rightarrow> string" where
  "trimStart s = dropWhile isHyphen s"

definition trimEnd :: "string \<Rightarrow> string" where
  "trimEnd s = rev (dropWhile isHyphen (rev s))"

definition slugify :: "string \<Rightarrow> string" where
  "slugify s =
     trimEnd (trimStart (collapseHyphens (stripNonWord (replaceSpaces (toLowerCase s)))))"

text \<open>
  The path argument of the two identifier functions is a string or an array of segments;
  \<open>getEndpointId\<close> also has a branch for anything else (\<open>None\<close> here).
\<close>

datatype pathArg = PathString string | PathArray "string list"

fun getFolderId :: "pathArg \<Rightarrow> string" where
  "getFolderId (PathString folderPath) = ''folder-'' @ slugify folderPath"
| "getFolderId (PathArray folderPath) = ''folder-'' @ join ''-'' (map slugify folderPath)"

fun getEndpointId :: "pathArg option \<Rightarrow> string \<Rightarrow> string" where
  "getEndpointId (Some (PathArray parentPath)) endpointName =
     ''endpoint-'' @ join ''-'' (map slugify parentPath) @ ''-'' @ slugify endpointName"
| "getEndpointId (Some (PathString parentPath)) endpointName =
     ''endpoint-'' @ slugify parentPath @ ''-'' @ slugify endpointName"
| "getEndpointId None endpointName = ''endpoint-'' @ slugify endpointName"

section \<open>\<open>cleanPostmanVariables\<close> and \<open>escapeHtml\<close>\<close>

text \<open>
  One match of \<open>/\{\{([^}]+)\}\}/\<close> at the start of \<open>s\<close>: two opening braces, the longest
  non-empty run of characters other than a closing brace, two closing braces. The result is
  the captured group and the text after the match.
\<close>

definition matchPlaceholder :: "string \<Rightarrow> (string \<times> string) option" where
  "matchPlaceholder s =
     (if startsWith s ''{{'' then
        (let inner = takeWhile (\<lambda>c. c \<noteq> CHR ''}'') (drop 2 s);
             rest = dropWhile (\<lambda>c. c \<noteq> CHR ''}'') (drop 2 s)
         in if inner \<noteq> [] \<and> startsWith rest ''}}'' then Some (inner, drop 2 rest) else None)
      else None)"

text \<open>\<open>text.replace(/\{\{([^}]+)\}\}/g, "$1")\<close>: every match, left to right, becomes its group.\<close>

function replacePlaceholders :: "string \<Rightarrow> string" where
  "replacePlaceholders [] = []"
| "replacePlaceholders (c # cs) =
     (case matchPlaceholder (c # cs) of
        Some (inner, rest) \<Rightarrow> inner @ replacePlaceholders rest
      | None \<Rightarrow> c # replacePlaceholders cs)"
  by pat_completeness auto
termination
proof (relation "measure length")
  show "wf (measure length)" by simp
next
  fix c :: char and cs x2 inner rest
  assume "matchPlaceholder (c # cs) = Some x2" and "(inner, rest) = x2"
  then have "rest = drop 2 (dropWhile (\<lambda>c. c \<noteq> CHR ''}'') (drop 2 (c # cs)))"
    and "startsWith (c # cs) ''{{''"
    by (auto simp: matchPlaceholder_def Let_def split: if_splits)
  moreover have "length (dropWhile (\<lambda>c. c \<noteq> CHR ''}'') (drop 2 (c # cs))) \<le> length (drop 2 (c # cs))"
    by (rule length_dropWhile_le)
  ultimately show "(rest, c # cs) \<in> measure length"
    by simp
next
  fix c :: char and cs
  show "(cs, c # cs) \<in> measure length" by simp
qed

fun cleanPostmanVariables :: "jsval \<Rightarrow> jsval" where
  "cleanPostmanVariables (Str s) = Str (replacePlaceholders s)"
| "cleanPostmanVariables v = v"

text \<open>\<open>s.replace(/\\n/g, "<br>")\<close>: a backslash followed by the letter n.\<close>

fun replaceBackslashN :: "string \<Rightarrow> string" where
  "replaceBackslashN (a # b # cs) =
     (if a = CHR 0x5C \<and> b = CHR ''n'' then ''<br>'' @ replaceBackslashN cs
      else a # replaceBackslashN (b # cs))"
| "replaceBackslashN cs = cs"

definition escapeHtml :: "string \<Rightarrow> string" where
  "escapeHtml s =
     replaceBackslashN
       (replaceChar CHR ''\<newline>'' ''<br>''
         (replaceChar CHR 0x27 ''&#039;''
           (replaceChar CHR 0x22 ''&quot;''
             (replaceChar CHR ''>'' ''&gt;''
               (replaceChar CHR ''<'' ''&lt;''
                 (replaceChar CHR ''&'' ''&amp;'' s))))))"

section \<open>The collection\<close>

text \<open>
  The parsed collection as \<open>index.js\<close> reads it. Names, keys, values and descriptions are
  strings, as in the collection format. A query parameter, a header and a form-data entry
  are objects with the same attributes. A node has no tag: it is a folder when it has the
  attribute \<open>item\<close>, and every attribute the walker reads is kept on the one node type.
\<close>

record param =
  param_key :: "string option"
  param_value :: "string option"
  param_description :: "string option"
  param_type :: "string option"

datatype url =
    UrlString string
  | UrlObject (url_raw: "string option") (url_path: "string list option")
      (url_query: "param list option")

text \<open>\<open>body_language\<close> is \<open>body.options.raw.language\<close>, absent when any link of the chain is.\<close>

record body =
  body_mode :: "string option"
  body_raw :: "string option"
  body_language :: "string option"
  body_formdata :: "param list option"

record request =
  req_method :: "string option"
  req_url :: "url option"
  req_header :: "param list option"
  req_body :: "body option"
  req_description :: "string option"

record response =
  resp_header :: "param list option"
  resp_previewlanguage :: "string option"
  resp_body :: "string option"

datatype node =
  Node (name: string) (description: "string option") (item: "node list option")
    (request: "request option") (response: "response list option")

definition isFolder :: "node \<Rightarrow> bool" where
  "isFolder i = (item i \<noteq> None)"

section \<open>Output fragments\<close>

text \<open>
  The functions of \<open>index.js\<close> build their result from template literals. A template literal
  is modelled as the list of its pieces: \<open>Lit\<close> is text of the template itself, and each
  interpolation is one piece that says what was inserted: \<open>Anchor\<close> an identifier after
  \<open>href="#\<close>, \<open>Ident\<close> an identifier in an \<open>id\<close> attribute, \<open>Tag\<close> the heading tag
  \<open>h${headerLevel}\<close>, \<open>Val\<close> any other value. \<open>html\<close> gives the string the source returns.
\<close>

datatype frag = Lit string | Val string | Anchor string | Ident string | Tag nat

fun flat :: "frag \<Rightarrow> string" where
  "flat (Lit s) = s"
| "flat (Val s) = s"
| "flat (Anchor s) = s"
| "flat (Ident s) = s"
| "flat (Tag headerLevel) = ''h'' @ stringOfNat headerLevel"

definition html :: "frag list \<Rightarrow> string" where
  "html fs = concat (map flat fs)"

text \<open>
  What the source takes from its runtime: the Markdown converter, \<open>JSON.parse\<close> (\<open>None\<close>
  when it throws) and \<open>JSON.stringify(v, null, 2)\<close>.
\<close>

record 'j runtime =
  makeHtml :: "string \<Rightarrow> string"
  jsonParse :: "string \<Rightarrow> 'j option"
  jsonStringify :: "'j \<Rightarrow> string"

section \<open>The table of contents\<close>

fun generateTocItem :: "node \<Rightarrow> string list \<Rightarrow> frag list" where
  \<open>generateTocItem (Node nm descr its req resp) parentPath =
     (let itemPath = parentPath @ [nm];
          itemId = getFolderId (PathString (join ''-'' itemPath))
      in [Lit ''<li><a href="#'', Anchor itemId, Lit ''">'', Val nm, Lit ''</a>'']
         @ (case its of
              None \<Rightarrow> []
            | Some subItems \<Rightarrow>
                if subItems \<noteq> [] then
                  [Lit ''<ul>'']
                  @ concat (map (\<lambda>subItem.
                      if isFolder subItem then generateTocItem subItem itemPath
                      else [Lit ''<li><a href="#'',
                            Anchor (getEndpointId (Some (PathArray itemPath)) (name subItem)),
                            Lit ''">'', Val (name subItem), Lit ''</a></li>'']) subItems)
                  @ [Lit ''</ul>'']
                else [])
         @ [Lit ''</li>''])\<close>

definition generateTableOfContents :: "node list \<Rightarrow> frag list" where
  "generateTableOfContents folders = concat (map (\<lambda>folder. generateTocItem folder []) folders)"

section \<open>One endpoint\<close>

text \<open>
  \<open>generateEndpointContent\<close> is one long function in the source. Its parts are separate
  definitions here, named after the variables and comments of the source and kept in its order.
\<close>

definition clean :: "string \<Rightarrow> string" where
  "clean s = toStr (cleanPostmanVariables (Str s))"

definition requestUrl :: "request \<Rightarrow> string" where
  "requestUrl req =
     (case req_url req of
        Some (UrlString u) \<Rightarrow> clean u
      | Some (UrlObject (Some r) p q) \<Rightarrow> (if r \<noteq> [] then clean r else [])
      | _ \<Rightarrow> [])"

definition requestUrlPath :: "request \<Rightarrow> string" where
  "requestUrlPath req =
     (case req_url req of
        Some (UrlObject r (Some p) q) \<Rightarrow> ''/'' @ join ''/'' (map clean p)
      | _ \<Rightarrow> [])"

definition queryParams :: "request \<Rightarrow> param list" where
  "queryParams req =
     (case req_url req of
        Some (UrlObject r p (Some q)) \<Rightarrow> q
      | _ \<Rightarrow> [])"

definition headers :: "request \<Rightarrow> param list" where
  "headers req = (case req_header req of Some h \<Rightarrow> h | None \<Rightarrow> [])"

definition filteredQueryParams :: "request \<Rightarrow> param list" where
  "filteredQueryParams req =
     filter (\<lambda>p. truthy (param_key p)
                \<and> toLowerCase (interp (param_key p)) \<noteq> ''token''
                \<and> toLowerCase (interp (param_key p)) \<noteq> ''key'')
       (queryParams req)"

definition endpointHeader :: "'j runtime \<Rightarrow> string \<Rightarrow> node \<Rightarrow> request \<Rightarrow> frag list" where
  \<open>endpointHeader rt endpointId endpoint req =
     (let method = orElse (req_method req) ''GET'';
          methodClass = toLowerCase method;
          url = requestUrl req;
          urlPath = requestUrlPath req
      in [Lit ''<div class="endpoint" id="'', Ident endpointId,
          Lit ''">\<newline>    <div class="endpoint-header">\<newline>      <span class="http-method '',
          Val methodClass, Lit ''">'', Val method,
          Lit ''</span>\<newline>      <span class="url-path">'',
          Val (if urlPath \<noteq> [] then urlPath else url),
          Lit ''</span>\<newline>    </div>\<newline>    \<newline>    <h3>'', Val (name endpoint),
          Lit ''</h3>\<newline>    \<newline>    '']
         @ (if truthy (description endpoint) \<or> truthy (req_description req) then
              [Lit ''<div class="endpoint-description">'',
               Val (makeHtml rt
                 (if truthy (description endpoint) then interp (description endpoint)
                  else interp (req_description req))),
               Lit ''</div>'']
            else [])
         @ [Lit ''\<newline>    \<newline>    <div class="endpoint-details">''])\<close>

definition queryParamsSection :: "request \<Rightarrow> frag list" where
  \<open>queryParamsSection req =
     (if filteredQueryParams req \<noteq> [] then
        [Lit ''<div class="params-section">\<newline>      <h4>Query Parameters</h4>\<newline>      <table>\<newline>        <thead>\<newline>          <tr>\<newline>            <th>Parameter</th>\<newline>            <th>Value</th>\<newline>            <th>Description</th>\<newline>          </tr>\<newline>        </thead>\<newline>        <tbody>'']
        @ concat (map (\<lambda>p.
            [Lit ''<tr>\<newline>        <td>'', Val (interp (param_key p)),
             Lit ''</td>\<newline>        <td>'', Val (clean (orElse (param_value p) [])),
             Lit ''</td>\<newline>        <td>'', Val (escapeHtml (orElse (param_description p) [])),
             Lit ''</td>\<newline>      </tr>'']) (filteredQueryParams req))
        @ [Lit ''</tbody>\<newline>      </table>\<newline>    </div>'']
      else [])\<close>

definition headersSection :: "request \<Rightarrow> frag list" where
  \<open>headersSection req =
     (if headers req \<noteq> [] then
        [Lit ''<div class="params-section">\<newline>      <h5>Headers</h5>\<newline>      <table>\<newline>        <thead>\<newline>          <tr>\<newline>            <th>Name</th>\<newline>            <th>Value</th>\<newline>          </tr>\<newline>        </thead>\<newline>        <tbody>'']
        @ concat (map (\<lambda>header.
            [Lit ''<tr>\<newline>        <td>'', Val (interp (param_key header)),
             Lit ''</td>\<newline>        <td>'', Val (clean (orElse (param_value header) [])),
             Lit ''</td>\<newline>      </tr>'']) (headers req))
        @ [Lit ''</tbody>\<newline>      </table>\<newline>    </div>'']
      else [])\<close>

definition requestBodySection :: "request \<Rightarrow> frag list" where
  \<open>requestBodySection req =
     (case req_body req of
        None \<Rightarrow> []
      | Some b \<Rightarrow>
          if body_mode b = Some ''raw'' \<and> truthy (body_raw b) then
            (let rawBody = clean (interp (body_raw b));
                 language = orElse (body_language b) ''text''
             in [Lit ''<div class="params-section">\<newline>        <h4>Request Body</h4>\<newline>        <pre><code class="language-'',
                 Val language, Lit ''">'', Val rawBody,
                 Lit ''</code></pre>\<newline>      </div>''])
          else if body_mode b = Some ''formdata'' \<and> body_formdata b \<noteq> None then
            [Lit ''<div class="params-section">\<newline>        <h4>Form Data</h4>\<newline>        <table>\<newline>          <thead>\<newline>            <tr>\<newline>              <th>Key</th>\<newline>              <th>Value</th>\<newline>              <th>Type</th>\<newline>            </tr>\<newline>          </thead>\<newline>          <tbody>'']
            @ concat (map (\<lambda>p.
                [Lit ''<tr>\<newline>          <td>'', Val (interp (param_key p)),
                 Lit ''</td>\<newline>          <td>'', Val (clean (orElse (param_value p) [])),
                 Lit ''</td>\<newline>          <td>'', Val (orElse (param_type p) ''text''),
                 Lit ''</td>\<newline>        </tr>''])
                (case body_formdata b of Some ps \<Rightarrow> ps | None \<Rightarrow> []))
            @ [Lit ''</tbody>\<newline>        </table>\<newline>      </div>'']
          else [])\<close>

text \<open>The content type and the language of one response example.\<close>

definition languageOf :: "string \<Rightarrow> string" where
  "languageOf contentType =
     (if includesText contentType ''json'' then ''json''
      else if includesText contentType ''xml'' then ''xml''
      else if includesText contentType ''html'' then ''html''
      else if includesText contentType ''javascript'' then ''javascript''
      else ''text'')"

definition contentTypeHeader :: "response \<Rightarrow> param option" where
  "contentTypeHeader r =
     (case resp_header r of
        None \<Rightarrow> None
      | Some hs \<Rightarrow>
          find (\<lambda>h. truthy (param_key h)
                    \<and> toLowerCase (interp (param_key h)) = ''content-type'') hs)"

definition responseContentType :: "response \<Rightarrow> string" where
  "responseContentType r =
     (case contentTypeHeader r of
        None \<Rightarrow> ''text/plain''
      | Some h \<Rightarrow>
          if truthy (param_value h) then toLowerCase (interp (param_value h))
          else ''text/plain'')"

definition responseLanguage :: "response \<Rightarrow> string" where
  "responseLanguage r =
     (if truthy (resp_previewlanguage r) then interp (resp_previewlanguage r)
      else (case contentTypeHeader r of
              None \<Rightarrow> ''text''
            | Some h \<Rightarrow>
                if truthy (param_value h) then languageOf (toLowerCase (interp (param_value h)))
                else ''text''))"

text \<open>The \<open>try\<close> block: pretty-printed JSON, or the body as it is when parsing throws.\<close>

definition formatBody :: "'j runtime \<Rightarrow> string \<Rightarrow> string \<Rightarrow> string" where
  "formatBody rt language b =
     (if language = ''json'' then
        (case jsonParse rt b of
           Some parsed \<Rightarrow> jsonStringify rt parsed
         | None \<Rightarrow> b)
      else b)"

definition responseBodyBlock :: "string \<Rightarrow> string \<Rightarrow> frag list" where
  \<open>responseBodyBlock language formattedBody =
     (let lineCount = length (split CHR ''\<newline>'' formattedBody);
          isLong = (lineCount > 10)
      in [Lit ''<div class="response-body'', Lit (if isLong then '' collapsed'' else []),
          Lit ''">\<newline>          <pre><code class="language-'', Val language, Lit ''">'',
          Val formattedBody, Lit ''</code></pre>\<newline>        </div>'']
         @ (if isLong then [Lit ''<button class="expand-button">Afficher tout</button>'']
            else []))\<close>

definition responseExample :: "'j runtime \<Rightarrow> response \<Rightarrow> frag list" where
  \<open>responseExample rt r =
     (let contentType = responseContentType r;
          language = responseLanguage r
      in [Lit ''<div class="response-example">\<newline>        '']
         @ (if contentType \<noteq> ''text/plain'' then
              [Lit ''<p><strong>Content-Type:</strong> '', Val contentType, Lit ''</p>'']
            else [])
         @ (if truthy (resp_body r) then
              responseBodyBlock language (formatBody rt language (interp (resp_body r)))
            else [])
         @ [Lit ''</div>''])\<close>

definition responseExamplesSection :: "'j runtime \<Rightarrow> node \<Rightarrow> frag list" where
  \<open>responseExamplesSection rt endpoint =
     (case response endpoint of
        None \<Rightarrow> []
      | Some rs \<Rightarrow>
          if rs \<noteq> [] then
            [Lit ''<div class="params-section">\<newline>      <h4>Response Examples</h4>'']
            @ concat (map (responseExample rt) rs)
            @ [Lit ''</div>'']
          else [])\<close>

definition generateEndpointContent :: "'j runtime \<Rightarrow> string list \<Rightarrow> node \<Rightarrow> frag list" where
  \<open>generateEndpointContent rt parentPath endpoint =
     (let endpointId = getEndpointId (Some (PathArray parentPath)) (name endpoint)
      in case request endpoint of
           None \<Rightarrow>
             [Lit ''<div class="endpoint" id="'', Ident endpointId,
              Lit ''">\<newline>      <h4>'', Val (name endpoint),
              Lit ''</h4>\<newline>      <p>No request information available.</p>\<newline>    </div>'']
         | Some req \<Rightarrow>
             endpointHeader rt endpointId endpoint req
             @ queryParamsSection req
             @ headersSection req
             @ requestBodySection req
             @ responseExamplesSection rt endpoint
             @ [Lit ''</div>\<newline>  </div>''])\<close>

section \<open>The folders\<close>

fun generateFolderContent :: "'j runtime \<Rightarrow> node \<Rightarrow> string list \<Rightarrow> nat \<Rightarrow> frag list" where
  \<open>generateFolderContent rt (Node nm descr its req resp) parentPath headerLevel =
     (let itemPath = parentPath @ [nm];
          itemId = getFolderId (PathString (join ''-'' itemPath))
      in [Lit ''<section id="'', Ident itemId, Lit ''">\<newline>    <'', Tag headerLevel,
          Lit ''>'', Val nm, Lit ''</'', Tag headerLevel, Lit ''>'']
         @ (if truthy descr then
              [Lit ''<div class="folder-description">'', Val (makeHtml rt (interp descr)),
               Lit ''</div>'']
            else [])
         @ (case its of
              None \<Rightarrow> []
            | Some subItems \<Rightarrow>
                if subItems \<noteq> [] then
                  concat (map (\<lambda>subItem.
                    if isFolder subItem then
                      generateFolderContent rt subItem itemPath (min (headerLevel + 1) 6)
                    else generateEndpointContent rt itemPath subItem) subItems)
                else [])
         @ [Lit ''</section>''])\<close>

definition generateFoldersContent :: "'j runtime \<Rightarrow> node list \<Rightarrow> frag list" where
  "generateFoldersContent rt folders =
     concat (map (\<lambda>folder. generateFolderContent rt folder [] 2) folders)"

section \<open>The boundary: \<open>collectionToHTML\<close> and the command line\<close>

text \<open>
  The version of \<open>index.js\<close> that loads translations exports
  \<open>collectionToHTML(inputFile, options)\<close>, and \<open>cli.js\<close> calls it. What they see of the file
  system is a \<open>world\<close>: the translation file of each language, the collection file at each
  path, the files written so far and the lines printed on the console. A JSON file either
  parses (\<open>Json\<close>) or makes \<open>JSON.parse\<close> throw with a message (\<open>Garbage\<close>). An exception is
  a value: \<open>Error\<close> is a \<open>throw new Error(message)\<close> of the source, \<open>Raised\<close> anything the
  runtime throws.
\<close>

datatype exn = Error string | Raised string

datatype 'a jsonFile = Json 'a | Garbage string

record ('t, 'c) world =
  translationFile :: "string \<Rightarrow> 't jsonFile option"
  collectionFile :: "string \<Rightarrow> 'c jsonFile option"
  written :: "(string \<times> string) list"
  console :: "string list"

text \<open>
  The \<open>options\<close> object; an attribute that is not given is \<open>Undefined\<close>, and the destructuring
  of the source puts its default there.
\<close>

record options =
  opt_outputFile :: jsval
  opt_language :: jsval
  opt_logo :: jsval
  opt_divider :: jsval

definition withDefault :: "jsval \<Rightarrow> jsval \<Rightarrow> jsval" where
  "withDefault v d = (if v = Undefined then d else v)"

fun isString :: "jsval \<Rightarrow> bool" where
  "isString (Str s) = True"
| "isString v = False"

definition quoted :: "string \<Rightarrow> string" where
  "quoted s = [CHR 0x27] @ s @ [CHR 0x27]"

definition validDividers :: "string list" where
  "validDividers = [''h1'', ''h2'', ''h3'', ''h4'', ''h5'', ''h6'']"

definition loadTranslations ::
  "('t, 'c) world \<Rightarrow> string \<Rightarrow> (exn + 't) \<times> ('t, 'c) world" where
  \<open>loadTranslations w language =
     (case translationFile w language of
        None \<Rightarrow>
          (let w' = w\<lparr>console := console w @
                 [''Translation file for language '' @ quoted language
                  @ '' not found. Falling back to English.'']\<rparr>
           in case translationFile w ''en'' of
                None \<Rightarrow> (Inl (Raised ''ENOENT''), w')
              | Some (Garbage m) \<Rightarrow> (Inl (Raised m), w')
              | Some (Json t) \<Rightarrow> (Inr t, w'))
      | Some (Garbage m) \<Rightarrow> (Inl (Raised m), w)
      | Some (Json t) \<Rightarrow> (Inr t, w))\<close>

text \<open>
  \<open>generateHtmlDocumentation\<close>, the only place where the collection is walked, is the
  parameter \<open>gen\<close>. The check that \<open>options\<close> is an object is not modelled: it is a record here.
\<close>

definition collectionToHTML ::
  "('c \<Rightarrow> 't \<Rightarrow> jsval \<Rightarrow> jsval \<Rightarrow> exn + string) \<Rightarrow> ('t, 'c) world \<Rightarrow> jsval \<Rightarrow> options
     \<Rightarrow> (exn + string) \<times> ('t, 'c) world" where
  \<open>collectionToHTML gen w inputFile opts =
     (let outputFile = withDefault (opt_outputFile opts) (Str ''api-doc.html'');
          language = withDefault (opt_language opts) (Str ''en'');
          logo = withDefault (opt_logo opts) Null;
          divider = withDefault (opt_divider opts) Null
      in if \<not> isString inputFile then (Inl (Error ''Input file must be a string.''), w)
         else if \<not> isString outputFile then (Inl (Error ''Output file must be a string.''), w)
         else if \<not> isString language then (Inl (Error ''Language must be a string.''), w)
         else if logo \<noteq> Null \<and> \<not> isString logo then
           (Inl (Error ''Logo SVG must be a string or null.''), w)
         else if divider \<noteq> Null \<and> divider \<notin> set (map Str validDividers) then
           (Inl (Error ''Divider must be one of: h1, h2, h3, h4, h5, h6, or null.''), w)
         else
           (case loadTranslations w (toStr language) of
              (Inl e, w1) \<Rightarrow> (Inl e, w1)
            | (Inr translations, w1) \<Rightarrow>
                (case collectionFile w1 (toStr inputFile) of
                   None \<Rightarrow>
                     (Inl (Error (''Input file '' @ quoted (toStr inputFile) @ '' does not exist.'')), w1)
                 | Some (Garbage m) \<Rightarrow>
                     (Inl (Error (''Input file '' @ quoted (toStr inputFile)
                                  @ '' is not valid JSON: '' @ m)), w1)
                 | Some (Json postmanCollection) \<Rightarrow>
                     (case gen postmanCollection translations logo divider of
                        Inl e \<Rightarrow> (Inl e, w1)
                      | Inr htmlContent \<Rightarrow>
                          (Inr (toStr outputFile),
                           w1\<lparr>written := written w1 @ [(toStr outputFile, htmlContent)]\<rparr>)))))\<close>

text \<open>
  \<open>cli.js\<close>. \<open>process.exit(1)\<close> ends the run with \<open>Some 1\<close>; a run that reaches the end
  of the script gives \<open>None\<close>. Reading the logo file gives its text or the message of the
  exception (\<open>Inl\<close>).
\<close>

record cliArgs =
  cli_outputFile :: string
  cli_language :: string
  cli_logoPath :: "string option"
  cli_divider :: "string option"

text \<open>\<open>arg.split("=")[1]\<close>; the argument starts with an option name that ends in \<open>=\<close>.\<close>

definition argValue :: "string \<Rightarrow> string" where
  "argValue arg = (case split CHR ''='' arg of a # v # vs \<Rightarrow> v | _ \<Rightarrow> [])"

fun parseArgs :: "string list \<Rightarrow> cliArgs \<Rightarrow> string + cliArgs" where
  "parseArgs [] a = Inr a"
| "parseArgs (arg # rest) a =
     (if startsWith arg ''--lang='' then parseArgs rest (a\<lparr>cli_language := argValue arg\<rparr>)
      else if startsWith arg ''--output='' then parseArgs rest (a\<lparr>cli_outputFile := argValue arg\<rparr>)
      else if startsWith arg ''--logo='' then parseArgs rest (a\<lparr>cli_logoPath := Some (argValue arg)\<rparr>)
      else if startsWith arg ''--divider='' then parseArgs rest (a\<lparr>cli_divider := Some (argValue arg)\<rparr>)
      else Inl arg)"

definition supportedLanguages :: "string list" where
  "supportedLanguages = [''en'', ''fr'']"

definition usage :: "string list" where
  \<open>usage =
     [''Usage: node cli.js <input-file.json> [--output=output-file.html] [--lang=language] [--logo=logo.svg] [--divider=h1|h2|h3|h4|h5|h6]'',
      ''Options:'',
      ''  --output=file.html    Output HTML file (default: api-doc.html)'',
      ''  --lang=language       Language for documentation (default: en)'',
      ''  --logo=logo.svg       SVG logo file to embed (optional)'',
      ''  --divider=h1-h6       Heading level to add border-bottom (optional)'',
      ''Available languages: en (English), fr (French)'']\<close>

definition defaultArgs :: cliArgs where
  "defaultArgs =
     \<lparr>cli_outputFile = ''api-doc.html'', cli_language = ''en'',
      cli_logoPath = None, cli_divider = None\<rparr>"

definition say :: "string list \<Rightarrow> ('t, 'c) world \<Rightarrow> ('t, 'c) world" where
  "say ls w = w\<lparr>console := console w @ ls\<rparr>"

fun message :: "exn \<Rightarrow> string" where
  "message (Error m) = m"
| "message (Raised m) = m"

definition cli ::
  "('c \<Rightarrow> 't \<Rightarrow> jsval \<Rightarrow> jsval \<Rightarrow> exn + string) \<Rightarrow> (string \<Rightarrow> string + string)
     \<Rightarrow> ('t, 'c) world \<Rightarrow> string list \<Rightarrow> nat option \<times> ('t, 'c) world" where
  \<open>cli gen readText w argv =
     (if length argv < 3 then (Some 1, say usage w)
      else
        (let inputFile = argv ! 2
         in case parseArgs (drop 3 argv) defaultArgs of
              Inl arg \<Rightarrow>
                (Some 1, say [''Unknown argument: '' @ arg, ''Use --help for usage information''] w)
            | Inr a \<Rightarrow>
                if cli_language a \<notin> set supportedLanguages then
                  (Some 1, say [''Unsupported language: '' @ cli_language a,
                                ''Available languages: '' @ join '', '' supportedLanguages] w)
                else if truthy (cli_divider a) \<and> interp (cli_divider a) \<notin> set validDividers then
                  (Some 1, say [''Invalid divider: '' @ interp (cli_divider a),
                                ''Valid dividers: '' @ join '', '' validDividers] w)
                else
                  (case (if truthy (cli_logoPath a) then
                           (case readText (interp (cli_logoPath a)) of
                              Inl m \<Rightarrow> Inl m
                            | Inr svg \<Rightarrow> Inr (Str svg))
                         else Inr Null) of
                     Inl m \<Rightarrow>
                       (Some 1, say [''Error: Could not read logo file ''
                                     @ quoted (interp (cli_logoPath a)) @ '': '' @ m] w)
                   | Inr logo \<Rightarrow>
                       (let w1 = (if logo = Null then w
                                  else say [''Found logo file: '' @ interp (cli_logoPath a)
                                            @ '', embedding it in the HTML...''] w)
                        in case collectionToHTML gen w1 (Str inputFile)
                                  \<lparr>opt_outputFile = Str (cli_outputFile a),
                                   opt_language = Str (cli_language a),
                                   opt_logo = logo,
                                   opt_divider = (case cli_divider a of None \<Rightarrow> Null
                                                  | Some d \<Rightarrow> Str d)\<rparr> of
                             (Inl e, w2) \<Rightarrow> (Some 1, say [''Error: '' @ message e] w2)
                           | (Inr out, w2) \<Rightarrow>
                               (None, say [''HTML generated successfully: '' @ cli_outputFile a
                                           @ '' (language: '' @ cli_language a @ '')''] w2)))))\<close>

section \<open>The call stack\<close>

text \<open>
  \<open>generateFolderContent\<close> calls itself once for every level of nested folders, and the
  engine throws \<open>RangeError\<close> when a call finds no room on its stack. Here the walk runs on a
  stack with room for \<open>frames\<close> nested calls of \<open>generateFolderContent\<close>: a call made when
  no room is left throws, and an exception thrown by a call for a child leaves the loop and
  the caller, as nothing in \<open>index.js\<close> catches it. \<open>collect\<close> is the loop
  \<open>content += ...\<close> over the children.
\<close>

definition stackOverflow :: exn where
  "stackOverflow = Raised ''RangeError: Maximum call stack size exceeded''"

fun collect :: "(exn + frag list) list \<Rightarrow> exn + frag list" where
  "collect [] = Inr []"
| "collect (Inl e # rs) = Inl e"
| "collect (Inr fs # rs) = (case collect rs of Inl e \<Rightarrow> Inl e | Inr gs \<Rightarrow> Inr (fs @ gs))"

fun generateFolderContentStack ::
  "nat \<Rightarrow> 'j runtime \<Rightarrow> node \<Rightarrow> string list \<Rightarrow> nat \<Rightarrow> exn + frag list" where
  \<open>generateFolderContentStack 0 rt n parentPath headerLevel = Inl stackOverflow\<close>
| \<open>generateFolderContentStack (Suc frames) rt (Node nm descr its req resp) parentPath headerLevel =
     (let itemPath = parentPath @ [nm];
          itemId = getFolderId (PathString (join ''-'' itemPath))
      in case (case its of
                 None \<Rightarrow> Inr []
               | Some subItems \<Rightarrow>
                   if subItems \<noteq> [] then
                     collect (map (\<lambda>subItem.
                       if isFolder subItem then
                         generateFolderContentStack frames rt subItem itemPath
                           (min (headerLevel + 1) 6)
                       else Inr (generateEndpointContent rt itemPath subItem)) subItems)
                   else Inr []) of
           Inl e \<Rightarrow> Inl e
         | Inr children \<Rightarrow>
             Inr ([Lit ''<section id="'', Ident itemId, Lit ''">\<newline>    <'', Tag headerLevel,
                   Lit ''>'', Val nm, Lit ''</'', Tag headerLevel, Lit ''>'']
                  @ (if truthy descr then
                       [Lit ''<div class="folder-description">'',
                        Val (makeHtml rt (interp descr)), Lit ''</div>'']
                     else [])
                  @ children
                  @ [Lit ''</section>'']))\<close>

definition generateFoldersContentStack ::
  "nat \<Rightarrow> 'j runtime \<Rightarrow> node list \<Rightarrow> exn + frag list" where
  "generateFoldersContentStack frames rt folders =
     collect (map (\<lambda>folder. generateFolderContentStack frames rt folder [] 2) folders)"

section \<open>Predicates of the properties\<close>

text \<open>A character of a slug: a digit, a lower-case letter, an underscore or a hyphen.\<close>

definition isSlugChar :: "char \<Rightarrow> bool" where
  "isSlugChar c =
     (let n = (of_char c :: nat)
      in (48 \<le> n \<and> n \<le> 57) \<or> (97 \<le> n \<and> n \<le> 122) \<or> n = 95 \<or> c = CHR ''-'')"

fun noDoubleHyphen :: "string \<Rightarrow> bool" where
  "noDoubleHyphen (x # y # zs) = (\<not> (isHyphen x \<and> isHyphen y) \<and> noDoubleHyphen (y # zs))"
| "noDoubleHyphen zs = True"

definition isSlug :: "string \<Rightarrow> bool" where
  "isSlug s =
     ((\<forall>c\<in>set s. isSlugChar c) \<and> noDoubleHyphen s \<and>
      (s \<noteq> [] \<longrightarrow> \<not> isHyphen (hd s) \<and> \<not> isHyphen (last s)))"

text \<open>The interpolated pieces of a fragment list, by kind, in order.\<close>

fun anchorOf :: "frag \<Rightarrow> string list" where
  "anchorOf (Anchor s) = [s]"
| "anchorOf f = []"

fun identOf :: "frag \<Rightarrow> string list" where
  "identOf (Ident s) = [s]"
| "identOf f = []"

fun tagOf :: "frag \<Rightarrow> nat list" where
  "tagOf (Tag n) = [n]"
| "tagOf f = []"

fun valOf :: "frag \<Rightarrow> string list" where
  "valOf (Val s) = [s]"
| "valOf f = []"

fun litOf :: "frag \<Rightarrow> string list" where
  "litOf (Lit s) = [s]"
| "litOf f = []"

definition anchors :: "frag list \<Rightarrow> string list" where
  "anchors fs = concat (map anchorOf fs)"

definition idents :: "frag list \<Rightarrow> string list" where
  "idents fs = concat (map identOf fs)"

definition tags :: "frag list \<Rightarrow> nat list" where
  "tags fs = concat (map tagOf fs)"

definition vals :: "frag list \<Rightarrow> string list" where
  "vals fs = concat (map valOf fs)"

definition lits :: "frag list \<Rightarrow> string list" where
  "lits fs = concat (map litOf fs)"

text \<open>A runtime for the examples: no Markdown, and a JSON parser that accepts nothing.\<close>

definition plainRuntime :: "unit runtime" where
  "plainRuntime = \<lparr>makeHtml = (\<lambda>s. s), jsonParse = (\<lambda>s. None), jsonStringify = (\<lambda>u. [])\<rparr>"

text \<open>The nesting depth of every node that is rendered as a folder, in the order of the walk.\<close>

fun folderDepths :: "nat \<Rightarrow> node \<Rightarrow> nat list" where
  "folderDepths d (Node nm descr its req resp) =
     d # (case its of
            None \<Rightarrow> []
          | Some subItems \<Rightarrow> concat (map (folderDepths (Suc d)) (filter isFolder subItems)))"

fun countNodes :: "node \<Rightarrow> nat" where
  "countNodes (Node nm descr its req resp) =
     Suc (case its of None \<Rightarrow> 0 | Some subItems \<Rightarrow> sum_list (map countNodes subItems))"

text \<open>The heading level of a folder at nesting depth \<open>d\<close>; the top level is depth 0.\<close>

definition headingLevel :: "nat \<Rightarrow> nat" where
  "headingLevel d = min (2 + d) 6"

text \<open>A chain of folders, each the only child of the one before, with one endpoint at the end.\<close>

fun chain :: "nat \<Rightarrow> node" where
  "chain 0 = Node ''leaf'' None None None None"
| "chain (Suc k) = Node ''f'' None (Some [chain k]) None None"

text \<open>
  The number of nested calls of \<open>generateFolderContent\<close> that the walk of a node makes: one
  for the node, and those of its deepest child folder.
\<close>

fun height :: "node \<Rightarrow> nat" where
  "height (Node nm descr its req resp) =
     Suc (case its of
            None \<Rightarrow> 0
          | Some subItems \<Rightarrow> foldr max (map height (filter isFolder subItems)) 0)"

text \<open>
  The nodes of a tree as the walk meets them. \<open>foldersOf\<close> lists every node that is walked as
  a folder, with its nesting depth and the names of its ancestors; \<open>endpointsOf\<close> lists every
  child that is not a folder, with the names of its ancestors. \<open>sectionOpening\<close> is the
  start of the section of a folder: its identifier, its heading at the given level and its
  description.
\<close>

fun foldersOf :: "nat \<Rightarrow> string list \<Rightarrow> node \<Rightarrow> (nat \<times> string list \<times> node) list" where
  "foldersOf d p (Node nm descr its req resp) =
     (d, p, Node nm descr its req resp)
     # (case its of
          None \<Rightarrow> []
        | Some subItems \<Rightarrow>
            concat (map (foldersOf (Suc d) (p @ [nm])) (filter isFolder subItems)))"

fun endpointsOf :: "string list \<Rightarrow> node \<Rightarrow> (string list \<times> node) list" where
  "endpointsOf p (Node nm descr its req resp) =
     (case its of
        None \<Rightarrow> []
      | Some subItems \<Rightarrow>
          concat (map (\<lambda>subItem.
            if isFolder subItem then endpointsOf (p @ [nm]) subItem
            else [(p @ [nm], subItem)]) subItems))"

definition sectionOpening :: "'j runtime \<Rightarrow> nat \<Rightarrow> string list \<Rightarrow> node \<Rightarrow> frag list" where
  \<open>sectionOpening rt headerLevel parentPath n =
     [Lit ''<section id="'',
      Ident (getFolderId (PathString (join ''-'' (parentPath @ [name n])))),
      Lit ''">\<newline>    <'', Tag headerLevel, Lit ''>'', Val (name n), Lit ''</'',
      Tag headerLevel, Lit ''>'']
     @ (if truthy (description n) then
          [Lit ''<div class="folder-description">'',
           Val (makeHtml rt (interp (description n))), Lit ''</div>'']
        else [])\<close>

text \<open>
  The section of a node that shows its heading and nothing else, and the two keys of a
  query parameter compared without regard to case.
\<close>

definition headingOnlySection :: "node \<Rightarrow> frag list" where
  \<open>headingOnlySection n =
     [Lit ''<section id="'', Ident (''folder-'' @ slugify (name n)), Lit ''">\<newline>    <'',
      Tag 2, Lit ''>'', Val (name n), Lit ''</'', Tag 2, Lit ''>'', Lit ''</section>'']\<close>

definition equalsIgnoringCase :: "string \<Rightarrow> string \<Rightarrow> bool" where
  "equalsIgnoringCase a b = (toLowerCase a = toLowerCase b)"

definition isAuthKey :: "param \<Rightarrow> bool" where
  "isAuthKey p =
     (equalsIgnoringCase (interp (param_key p)) ''token''
      \<or> equalsIgnoringCase (interp (param_key p)) ''key'')"

definition paramRow :: "param \<Rightarrow> string list" where
  "paramRow p =
     [interp (param_key p), clean (orElse (param_value p) []),
      escapeHtml (orElse (param_description p) [])]"


datatype piece = Plain char | Name string






text \<open>
  The configuration errors of \<open>collectionToHTML\<close>: a divider that is given and is not one of
  the six heading levels, a logo that is given and is not a string, and the messages of the
  five checks it makes before it reads a file.
\<close>

definition invalidDivider :: "jsval \<Rightarrow> bool" where
  "invalidDivider d = (d \<noteq> Undefined \<and> d \<noteq> Null \<and> d \<notin> set (map Str validDividers))"

definition nonStringLogo :: "jsval \<Rightarrow> bool" where
  "nonStringLogo l = (l \<noteq> Undefined \<and> l \<noteq> Null \<and> \<not> isString l)"

definition nonStringLanguage :: "jsval \<Rightarrow> bool" where
  "nonStringLanguage l = (l \<noteq> Undefined \<and> \<not> isString l)"

definition validationMessages :: "string list" where
  "validationMessages =
     [''Input file must be a string.'', ''Output file must be a string.'',
      ''Language must be a string.'', ''Logo SVG must be a string or null.'',
      ''Divider must be one of: h1, h2, h3, h4, h5, h6, or null.'']"

definition passesValidation :: "jsval \<Rightarrow> options \<Rightarrow> bool" where
  "passesValidation inputFile opts =
     (isString inputFile
      \<and> isString (withDefault (opt_outputFile opts) (Str ''api-doc.html''))
      \<and> \<not> nonStringLanguage (opt_language opts)
      \<and> \<not> nonStringLogo (opt_logo opts)
      \<and> \<not> invalidDivider (opt_divider opts))"

section \<open>Examples\<close>

text \<open>Collections, requests, responses and worlds on which the theorems below are run.\<close>

definition twins :: "node list" where
  "twins = [Node ''Users'' None (Some []) None None, Node ''Users'' None (Some []) None None]"

definition sample :: "node list" where
  "sample =
     [Node ''Users'' None
        (Some [Node ''Get User'' None None None None,
               Node ''Admin'' None (Some [Node ''Ban'' None None None None]) None None])
        None None]"

definition pingNoRequest :: node where
  "pingNoRequest =
     Node ''Ping'' (Some ''Health check'') None None
       (Some [\<lparr>resp_header = None, resp_previewlanguage = None, resp_body = Some ''pong''\<rparr>])"

definition pingTop :: node where
  "pingTop =
     Node ''Ping'' (Some ''Health check'') None
       (Some \<lparr>req_method = Some ''GET'', req_url = Some (UrlString ''/ping''), req_header = None,
              req_body = None, req_description = None\<rparr>)
       (Some [\<lparr>resp_header = None, resp_previewlanguage = None, resp_body = Some ''pong''\<rparr>])"

definition fifteenLines :: response where
  \<open>fifteenLines =
     \<lparr>resp_header = None, resp_previewlanguage = None,
      resp_body = Some ''1\<newline>2\<newline>3\<newline>4\<newline>5\<newline>6\<newline>7\<newline>8\<newline>9\<newline>10\<newline>11\<newline>12\<newline>13\<newline>14\<newline>15''\<rparr>\<close>

definition tenLines :: response where
  \<open>tenLines =
     \<lparr>resp_header = None, resp_previewlanguage = None,
      resp_body = Some ''1\<newline>2\<newline>3\<newline>4\<newline>5\<newline>6\<newline>7\<newline>8\<newline>9\<newline>10''\<rparr>\<close>

definition noBody :: response where
  "noBody = \<lparr>resp_header = None, resp_previewlanguage = None, resp_body = None\<rparr>"

definition emptyKeyParam :: param where
  "emptyKeyParam =
     \<lparr>param_key = Some [], param_value = Some ''1'', param_description = None,
      param_type = None\<rparr>"

definition emptyKeyRequest :: request where
  "emptyKeyRequest =
     \<lparr>req_method = Some ''GET'',
      req_url = Some (UrlObject None (Some [''search'']) (Some [emptyKeyParam])),
      req_header = None, req_body = None, req_description = None\<rparr>"

definition searchRequest :: request where
  "searchRequest =
     \<lparr>req_method = Some ''GET'',
      req_url = Some (UrlObject None (Some [''search''])
        (Some [\<lparr>param_key = Some ''q'', param_value = Some ''{{term}}'',
                 param_description = Some ''a < b'', param_type = None\<rparr>,
               \<lparr>param_key = Some ''Token'', param_value = Some ''{{token}}'',
                 param_description = None, param_type = None\<rparr>,
               \<lparr>param_key = Some ''KEY'', param_value = None,
                 param_description = None, param_type = None\<rparr>,
               \<lparr>param_key = Some ''page'', param_value = None,
                 param_description = None, param_type = None\<rparr>])),
      req_header = None, req_body = None, req_description = None\<rparr>"

text \<open>
  A world with the English and the French translation and one collection file, a document
  generator that returns a fixed page, and a logo reader that finds no file.
\<close>

definition exampleWorld :: "(string, node list) world" where
  "exampleWorld =
     \<lparr>translationFile =
        (\<lambda>l. if l = ''en'' then Some (Json ''English'')
              else if l = ''fr'' then Some (Json ''French'') else None),
      collectionFile = (\<lambda>p. if p = ''collection.json'' then Some (Json sample) else None),
      written = [], console = []\<rparr>"

definition fixedPage :: "node list \<Rightarrow> string \<Rightarrow> jsval \<Rightarrow> jsval \<Rightarrow> exn + string" where
  "fixedPage c t logo divider = Inr ''<html></html>''"

definition noTextFile :: "string \<Rightarrow> string + string" where
  "noTextFile p = Inl ''ENOENT''"

definition noOptions :: options where
  "noOptions =
     \<lparr>opt_outputFile = Undefined, opt_language = Undefined, opt_logo = Undefined,
      opt_divider = Undefined\<rparr>"


text \<open>An endpoint with a request and three response examples.\<close>

definition report :: node where
  "report =
     Node ''Report'' None None
       (Some \<lparr>req_method = Some ''GET'', req_url = Some (UrlString ''/report''), req_header = None,
              req_body = None, req_description = None\<rparr>)
       (Some [fifteenLines, tenLines, noBody])"

definition reportsFolder :: node where
  "reportsFolder = Node ''Reports'' (Some ''Daily figures'') (Some [report]) None None"

definition reports :: "node list" where
  "reports = [reportsFolder]"
section \<open>Fragments by kind\<close>

text \<open>The string of a table of contents, for the example collection.\<close>

lemma html_toc_sample:
  \<open>html (generateTableOfContents sample)
     = ''<li><a href="#folder-users">Users</a><ul><li><a href="#endpoint-users-get-user">Get User</a></li><li><a href="#folder-users-admin">Admin</a><ul><li><a href="#endpoint-users-admin-ban">Ban</a></li></ul></li></ul></li>''\<close>
  by code_simp

lemma anchors_simps [simp]:
  "anchors [] = []"
  "anchors (f # fs) = anchorOf f @ anchors fs"
  "anchors (fs @ gs) = anchors fs @ anchors gs"
  "anchors (concat fss) = concat (map anchors fss)"
  by (induction fss) (simp_all add: anchors_def)

lemma idents_simps [simp]:
  "idents [] = []"
  "idents (f # fs) = identOf f @ idents fs"
  "idents (fs @ gs) = idents fs @ idents gs"
  "idents (concat fss) = concat (map idents fss)"
  by (induction fss) (simp_all add: idents_def)

lemma tags_simps [simp]:
  "tags [] = []"
  "tags (f # fs) = tagOf f @ tags fs"
  "tags (fs @ gs) = tags fs @ tags gs"
  "tags (concat fss) = concat (map tags fss)"
  by (induction fss) (simp_all add: tags_def)

lemma vals_simps [simp]:
  "vals [] = []"
  "vals (f # fs) = valOf f @ vals fs"
  "vals (fs @ gs) = vals fs @ vals gs"
  "vals (concat fss) = concat (map vals fss)"
  by (induction fss) (simp_all add: vals_def)

lemma lits_simps [simp]:
  "lits [] = []"
  "lits (f # fs) = litOf f @ lits fs"
  "lits (fs @ gs) = lits fs @ lits gs"
  "lits (concat fss) = concat (map lits fss)"
  by (induction fss) (simp_all add: lits_def)

lemma concat_map_Nil: "(\<And>x. x \<in> set xs \<Longrightarrow> f x = []) \<Longrightarrow> concat (map f xs) = []"
  by (induction xs) auto

lemma idents_sections [simp]:
  "idents (queryParamsSection req) = []"
  "idents (headersSection req) = []"
  "idents (requestBodySection req) = []"
  by (simp_all add: queryParamsSection_def headersSection_def requestBodySection_def
        concat_map_Nil o_def Let_def split: option.splits)

lemma idents_responseExample [simp]: "idents (responseExample rt r) = []"
  by (simp add: responseExample_def responseBodyBlock_def Let_def)

lemma idents_responses [simp]: "idents (responseExamplesSection rt e) = []"
  by (simp add: responseExamplesSection_def concat_map_Nil o_def split: option.splits)

lemma idents_endpointHeader [simp]: "idents (endpointHeader rt i e req) = [i]"
  by (simp add: endpointHeader_def Let_def)

lemma idents_endpoint:
  "idents (generateEndpointContent rt p e) = [getEndpointId (Some (PathArray p)) (name e)]"
  by (simp add: generateEndpointContent_def Let_def split: option.splits)

lemma tags_sections [simp]:
  "tags (queryParamsSection req) = []"
  "tags (headersSection req) = []"
  "tags (requestBodySection req) = []"
  by (simp_all add: queryParamsSection_def headersSection_def requestBodySection_def
        concat_map_Nil o_def Let_def split: option.splits)

lemma tags_responseExample [simp]: "tags (responseExample rt r) = []"
  by (simp add: responseExample_def responseBodyBlock_def Let_def)

lemma tags_responses [simp]: "tags (responseExamplesSection rt e) = []"
  by (simp add: responseExamplesSection_def concat_map_Nil o_def split: option.splits)

lemma tags_endpointHeader [simp]: "tags (endpointHeader rt i e req) = []"
  by (simp add: endpointHeader_def Let_def)

lemma tags_endpoint [simp]: "tags (generateEndpointContent rt p e) = []"
  by (simp add: generateEndpointContent_def Let_def split: option.splits)

section \<open>The slug of a text\<close>

lemma toLowerChar_not_upper:
  "\<not> (65 \<le> (of_char (toLowerChar c) :: nat) \<and> (of_char (toLowerChar c) :: nat) \<le> 90)"
  by (auto simp: toLowerChar_def Let_def)

lemma set_replaceSpaces:
  "set (replaceSpaces s) \<subseteq> insert CHR ''-'' (set s)"
proof (induction s rule: replaceSpaces.induct)
  case 1 show ?case by simp
next
  case (2 c cs)
  have "set (dropWhile isSpace cs) \<subseteq> set cs" by (rule set_dropWhileD[THEN subsetI]) 
  with 2 show ?case by (auto split: if_splits)
qed


lemma set_collapseHyphens: "set (collapseHyphens s) \<subseteq> set s"
proof (induction s rule: collapseHyphens.induct)
  case 1 show ?case by simp
next
  case (2 c cs)
  have "set (dropWhile isHyphen cs) \<subseteq> set cs" by (rule set_dropWhileD[THEN subsetI]) 
  with 2 show ?case by (auto simp: isHyphen_def split: if_splits)
qed

lemma set_trimStart: "set (trimStart s) \<subseteq> set s"
  unfolding trimStart_def by (rule set_dropWhileD[THEN subsetI])

lemma set_trimEnd: "set (trimEnd s) \<subseteq> set s"
  unfolding trimEnd_def using set_dropWhileD[of _ isHyphen "rev s"] by auto

lemma slugify_chars: "c \<in> set (slugify s) \<Longrightarrow> isSlugChar c"
proof -
  assume "c \<in> set (slugify s)"
  then have a: "c \<in> set (stripNonWord (replaceSpaces (toLowerCase s)))"
    unfolding slugify_def using set_trimEnd set_trimStart set_collapseHyphens by blast
  then have w: "isWord c \<or> isHyphen c" and "c \<in> set (replaceSpaces (toLowerCase s))"
    by (auto simp: stripNonWord_def)
  then have "c = CHR ''-'' \<or> c \<in> toLowerChar ` set s"
    using set_replaceSpaces[of "toLowerCase s"] by (auto simp: toLowerCase_def)
  then show ?thesis
  proof
    assume "c = CHR ''-''" then show ?thesis by (simp add: isSlugChar_def)
  next
    assume "c \<in> toLowerChar ` set s"
    then obtain d where "c = toLowerChar d" by auto
    with w toLowerChar_not_upper[of d] show ?thesis
      by (auto simp: isSlugChar_def isWord_def isHyphen_def Let_def)
  qed
qed

lemma hd_dropWhile_not: "dropWhile P xs \<noteq> [] \<Longrightarrow> \<not> P (hd (dropWhile P xs))"
  by (simp add: hd_dropWhile)

lemma noDoubleHyphen_collapse: "noDoubleHyphen (collapseHyphens s)"
proof (induction s rule: collapseHyphens.induct)
  case 1 show ?case by simp
next
  case (2 c cs)
  show ?case
  proof (cases "isHyphen c")
    case True
    define r where "r = dropWhile isHyphen cs"
    have ih: "noDoubleHyphen (collapseHyphens r)" using 2 True by (simp add: r_def)
    have eq: "collapseHyphens (c # cs) = CHR ''-'' # collapseHyphens r"
      using True by (simp add: r_def)
    show ?thesis
    proof (cases r)
      case Nil
      then show ?thesis unfolding eq by simp
    next
      case (Cons d ds)
      then have "\<not> isHyphen d" using hd_dropWhile[of isHyphen cs] by (auto simp: r_def)
      with Cons ih show ?thesis unfolding eq by (simp add: isHyphen_def)
    qed
  next
    case False
    with 2 have ih: "noDoubleHyphen (collapseHyphens cs)" by simp
    with False show ?thesis by (cases "collapseHyphens cs") auto
  qed
qed

lemma noDoubleHyphen_tl: "noDoubleHyphen (x # xs) \<Longrightarrow> noDoubleHyphen xs"
  by (cases xs) auto

lemma noDoubleHyphen_dropWhile: "noDoubleHyphen s \<Longrightarrow> noDoubleHyphen (dropWhile P s)"
  by (induction s) (auto dest: noDoubleHyphen_tl)

lemma noDoubleHyphen_append1: "noDoubleHyphen (xs @ ys) \<Longrightarrow> noDoubleHyphen xs"
  by (induction xs rule: noDoubleHyphen.induct) auto

lemma trimEnd_prefix: "\<exists>ys. s = trimEnd s @ ys \<and> (\<forall>y\<in>set ys. isHyphen y)"
proof -
  have "rev s = takeWhile isHyphen (rev s) @ dropWhile isHyphen (rev s)" by simp
  then have "s = rev (dropWhile isHyphen (rev s)) @ rev (takeWhile isHyphen (rev s))"
    by (metis rev_append rev_rev_ident)
  moreover have "\<forall>y\<in>set (rev (takeWhile isHyphen (rev s))). isHyphen y"
    by (auto dest: set_takeWhileD)
  ultimately show ?thesis unfolding trimEnd_def by blast
qed

lemma noDoubleHyphen_trimEnd: "noDoubleHyphen s \<Longrightarrow> noDoubleHyphen (trimEnd s)"
  using trimEnd_prefix[of s] noDoubleHyphen_append1 by metis

lemma collapse_fixed: "noDoubleHyphen s \<Longrightarrow> collapseHyphens s = s"
proof (induction s rule: collapseHyphens.induct)
  case 1 show ?case by simp
next
  case (2 c cs)
  show ?case
  proof (cases "isHyphen c")
    case True
    have "dropWhile isHyphen cs = cs" using 2(3) True by (cases cs) auto
    moreover have "noDoubleHyphen cs" using 2(3) by (rule noDoubleHyphen_tl)
    ultimately show ?thesis using 2(1) True by (simp add: isHyphen_def)
  next
    case False
    then show ?thesis using 2 by (auto dest: noDoubleHyphen_tl)
  qed
qed

lemma replaceSpaces_fixed: "\<forall>c\<in>set s. \<not> isSpace c \<Longrightarrow> replaceSpaces s = s"
  by (induction s) auto

lemma slugChar_facts:
  "isSlugChar c \<Longrightarrow> toLowerChar c = c \<and> \<not> isSpace c \<and> (isWord c \<or> isHyphen c)"
  by (auto simp: isSlugChar_def toLowerChar_def isSpace_def isWord_def isHyphen_def Let_def)

lemma last_trimEnd: "trimEnd s \<noteq> [] \<Longrightarrow> \<not> isHyphen (last (trimEnd s))"
  unfolding trimEnd_def using hd_dropWhile[of isHyphen "rev s"] by (simp add: last_rev)

lemma hd_trimEnd_trimStart:
  assumes "trimEnd (trimStart s) \<noteq> []"
  shows "\<not> isHyphen (hd (trimEnd (trimStart s)))"
proof -
  obtain ys where ys: "trimStart s = trimEnd (trimStart s) @ ys"
    using trimEnd_prefix by blast
  with assms have ne: "trimStart s \<noteq> []" by auto
  have "hd (trimStart s) = hd (trimEnd (trimStart s))"
    using ys assms by (metis hd_append2)
  moreover have "\<not> isHyphen (hd (trimStart s))"
    using ne hd_dropWhile[of isHyphen s] by (simp add: trimStart_def)
  ultimately show ?thesis by simp
qed

lemma trimEnd_fixed: "s = [] \<or> \<not> isHyphen (last s) \<Longrightarrow> trimEnd s = s"
  unfolding trimEnd_def by (cases s rule: rev_cases) auto

lemma trimStart_fixed: "s = [] \<or> \<not> isHyphen (hd s) \<Longrightarrow> trimStart s = s"
  unfolding trimStart_def by (cases s) auto

lemma isSlug_slugify: "isSlug (slugify s)"
  unfolding isSlug_def
proof (intro conjI impI)
  show "\<forall>c\<in>set (slugify s). isSlugChar c" using slugify_chars by blast
  show "noDoubleHyphen (slugify s)"
    unfolding slugify_def trimStart_def
    by (intro noDoubleHyphen_trimEnd noDoubleHyphen_dropWhile noDoubleHyphen_collapse)
  show "\<not> isHyphen (hd (slugify s))" if "slugify s \<noteq> []"
    using that hd_trimEnd_trimStart unfolding slugify_def by blast
  show "\<not> isHyphen (last (slugify s))" if "slugify s \<noteq> []"
    using that last_trimEnd unfolding slugify_def by blast
qed

lemma slugify_fixed: "isSlug s \<Longrightarrow> slugify s = s"
proof -
  assume a: "isSlug s"
  then have ch: "\<forall>c\<in>set s. isSlugChar c" by (simp add: isSlug_def)
  have 1: "toLowerCase s = s" unfolding toLowerCase_def using ch slugChar_facts by (simp add: map_idI)
  have 2: "replaceSpaces s = s" using ch slugChar_facts by (intro replaceSpaces_fixed) blast
  have 3: "stripNonWord s = s" unfolding stripNonWord_def using ch slugChar_facts by (simp add: filter_id_conv)
  have 4: "collapseHyphens s = s" using a by (simp add: isSlug_def collapse_fixed)
  have 5: "trimStart s = s" using a by (intro trimStart_fixed) (auto simp: isSlug_def)
  have 6: "trimEnd s = s" using a by (intro trimEnd_fixed) (auto simp: isSlug_def)
  show ?thesis by (simp add: slugify_def 1 2 3 4 5 6)
qed

text \<open>
  Claim C2. For every text, \<open>slugify\<close> returns only lower-case word characters (digits,
  lower-case letters, underscore) and hyphens; the result neither starts nor ends with a
  hyphen; and \<open>slugify\<close> applied to its own result returns it unchanged.
\<close>

theorem slugify_spec:
  "(\<forall>c\<in>set (slugify s). isSlugChar c) \<and>
   (slugify s \<noteq> [] \<longrightarrow> hd (slugify s) \<noteq> CHR ''-'' \<and> last (slugify s) \<noteq> CHR ''-'') \<and>
   slugify (slugify s) = slugify s"
  using isSlug_slugify[of s] slugify_fixed[of "slugify s"]
  by (simp add: isSlug_def isHyphen_def)

theorem slugify_spec_witness:
  "slugify ''  Get  User -- by_Id! '' = ''get-user-by_id'' \<and>
   CHR ''g'' \<in> set (slugify ''  Get  User -- by_Id! '') \<and> isSlugChar CHR ''g'' \<and>
   slugify ''  Get  User -- by_Id! '' \<noteq> [] \<and>
   hd (slugify ''  Get  User -- by_Id! '') \<noteq> CHR ''-'' \<and>
   last (slugify ''  Get  User -- by_Id! '') \<noteq> CHR ''-'' \<and>
   slugify (slugify ''  Get  User -- by_Id! '') = slugify ''  Get  User -- by_Id! ''"
proof -
  have e: "slugify ''  Get  User -- by_Id! '' = ''get-user-by_id''"
    by code_simp
  have m: "CHR ''g'' \<in> set (slugify ''  Get  User -- by_Id! '')"
    unfolding e by simp
  from slugify_spec[of "''  Get  User -- by_Id! ''"] m e show ?thesis
    by auto
qed

section \<open>Placeholders\<close>

lemma startsWith_iff: "startsWith s p \<longleftrightarrow> (\<exists>v. s = p @ v)"
  by (induction s p rule: startsWith.induct) auto

lemma includesText_iff: "includesText s p \<longleftrightarrow> (\<exists>u v. s = u @ p @ v)"
proof (induction s)
  case Nil
  then show ?case by auto
next
  case (Cons c cs)
  show ?case
  proof
    assume "includesText (c # cs) p"
    then consider "startsWith (c # cs) p" | "includesText cs p" by auto
    then show "\<exists>u v. c # cs = u @ p @ v"
    proof cases
      case 1
      then obtain v where "c # cs = p @ v" by (auto simp: startsWith_iff)
      then have "c # cs = [] @ p @ v" by simp
      then show ?thesis by blast
    next
      case 2
      then obtain u v where "cs = u @ p @ v" using Cons by auto
      then have "c # cs = (c # u) @ p @ v" by simp
      then show ?thesis by blast
    qed
  next
    assume "\<exists>u v. c # cs = u @ p @ v"
    then obtain u v where e: "c # cs = u @ p @ v" by blast
    show "includesText (c # cs) p"
    proof (cases u)
      case Nil
      with e have "startsWith (c # cs) p" by (auto simp: startsWith_iff)
      then show ?thesis by simp
    next
      case (Cons d ds)
      with e have "cs = ds @ p @ v" by simp
      then have "includesText cs p" using Cons.IH by blast
      then show ?thesis by simp
    qed
  qed
qed














lemma includesText_set: "includesText s p \<Longrightarrow> set p \<subseteq> set s"
  by (auto simp: includesText_iff)


















section \<open>Fragments inside a fragment list\<close>

lemma sublist_concat_map: "x \<in> set xs \<Longrightarrow> sublist (f x) (concat (map f xs))"
proof -
  assume "x \<in> set xs"
  then obtain as bs where "xs = as @ x # bs" by (auto dest: split_list)
  then have "concat (map f xs) = concat (map f as) @ f x @ concat (map f bs)" by simp
  then show ?thesis unfolding sublist_def by blast
qed

lemma sublist_trans: "sublist xs ys \<Longrightarrow> sublist ys zs \<Longrightarrow> sublist xs zs"
  using sublist_order.order_trans .

lemma sublist_in_appends:
  "sublist xs ys \<Longrightarrow> sublist xs (as @ ys @ bs)"
  by (rule sublist_trans[OF _ sublist_appendI])

lemma html_includes_val: "Val x \<in> set fs \<Longrightarrow> includesText (html fs) x"
proof -
  assume "Val x \<in> set fs"
  then obtain as bs where "fs = as @ Val x # bs" by (auto dest: split_list)
  then have "html fs = html as @ x @ html bs" by (simp add: html_def)
  then show ?thesis unfolding includesText_iff by blast
qed

section \<open>The formatted body of a response\<close>

text \<open>
  \<open>JSON.parse\<close> and \<open>JSON.stringify\<close> belong to the runtime. What the source adds is the
  choice between the pretty-printed text and the body as it is.
\<close>

lemma formatBody_cases:
  "formatBody rt language b
     = (if language = ''json'' \<and> jsonParse rt b \<noteq> None then jsonStringify rt (the (jsonParse rt b))
        else b)"
  by (auto simp: formatBody_def split: option.splits)

section \<open>The two passes give the same identifiers\<close>

lemma toc_content_ids:
  "anchors (generateTocItem n p) = idents (generateFolderContent rt n p l)"
proof (induction rt n p l rule: generateFolderContent.induct)
  case (1 rt nm descr its req resp parentPath headerLevel)
  show ?case
  proof (cases its)
    case None
    then show ?thesis by (simp add: Let_def)
  next
    case (Some subItems)
    have pt: "anchors (if isFolder subItem then generateTocItem subItem (parentPath @ [nm])
              else [Lit ''<li><a href=\"#'',
                    Anchor (getEndpointId (Some (PathArray (parentPath @ [nm]))) (name subItem)),
                    Lit ''\">'', Val (name subItem), Lit ''</a></li>''])
          = idents (if isFolder subItem then
                    generateFolderContent rt subItem (parentPath @ [nm]) (min (headerLevel + 1) 6)
                  else generateEndpointContent rt (parentPath @ [nm]) subItem)"
      if m: "subItem \<in> set subItems" for subItem
    proof (cases "isFolder subItem")
      case True
      moreover from m have "subItems \<noteq> []" by auto
      ultimately show ?thesis using 1[OF refl refl Some _ m] by simp
    next
      case False
      then show ?thesis by (simp add: idents_endpoint)
    qed
    show ?thesis using Some by (simp add: Let_def o_def pt cong: map_cong)
  qed
qed

lemma distinct_count_one: "distinct xs \<Longrightarrow> x \<in> set xs \<Longrightarrow> count_list xs x = 1"
  by (induction xs) auto

text \<open>
  Claim C1, as amended. The table-of-contents pass and the content pass emit the same
  identifiers in the same order: the link targets of \<open>generateTableOfContents\<close> are, one by
  one, the section and div identifiers of \<open>generateFoldersContent\<close>. When the link targets
  are pairwise distinct, each of them has exactly one matching identifier in the content and
  each identifier of the content exactly one matching link target.
\<close>

theorem toc_content_same_ids:
  "anchors (generateTableOfContents folders) = idents (generateFoldersContent rt folders) \<and>
   (distinct (anchors (generateTableOfContents folders)) \<longrightarrow>
      (\<forall>i\<in>set (anchors (generateTableOfContents folders)).
          count_list (idents (generateFoldersContent rt folders)) i = 1) \<and>
      (\<forall>i\<in>set (idents (generateFoldersContent rt folders)).
          count_list (anchors (generateTableOfContents folders)) i = 1))"
proof -
  have eq: "anchors (generateTableOfContents folders) = idents (generateFoldersContent rt folders)"
    by (simp add: generateTableOfContents_def generateFoldersContent_def o_def
          toc_content_ids[where l = 2 and rt = rt])
  show ?thesis
    using eq by (auto simp: distinct_count_one)
qed

theorem toc_content_same_ids_witness:
  "anchors (generateTableOfContents sample)
     = [''folder-users'', ''endpoint-users-get-user'', ''folder-users-admin'',
        ''endpoint-users-admin-ban''] \<and>
   idents (generateFoldersContent plainRuntime sample)
     = [''folder-users'', ''endpoint-users-get-user'', ''folder-users-admin'',
        ''endpoint-users-admin-ban''] \<and>
   distinct (anchors (generateTableOfContents sample)) \<and>
   count_list (idents (generateFoldersContent plainRuntime sample)) ''endpoint-users-get-user'' = 1 \<and>
   count_list (anchors (generateTableOfContents sample)) ''endpoint-users-get-user'' = 1"
proof -
  have a: "anchors (generateTableOfContents sample)
     = [''folder-users'', ''endpoint-users-get-user'', ''folder-users-admin'',
        ''endpoint-users-admin-ban'']"
    by code_simp
  have d: "distinct (anchors (generateTableOfContents sample))"
    unfolding a by simp
  have m: "''endpoint-users-get-user'' \<in> set (anchors (generateTableOfContents sample))"
    unfolding a by simp
  from toc_content_same_ids[of sample plainRuntime] a d m show ?thesis
    by auto
qed

text \<open>
  Two folders of the same name share their identifier, so the link target is matched by two
  sections.
\<close>

theorem toc_content_ids_twice:
  "''folder-users'' \<in> set (anchors (generateTableOfContents twins)) \<and>
   count_list (idents (generateFoldersContent plainRuntime twins)) ''folder-users'' = 2"
  by code_simp

section \<open>Heading levels\<close>

lemma collect_map:
  assumes "\<And>x. x \<in> set xs \<Longrightarrow> g x = (if c x then Inr (f x) else Inl E)"
  shows "collect (map g xs) = (if \<forall>x\<in>set xs. c x then Inr (concat (map f xs)) else Inl E)"
  using assms
proof (induction xs)
  case Nil
  show ?case by simp
next
  case (Cons a as)
  then have "collect (map g as) = (if \<forall>x\<in>set as. c x then Inr (concat (map f as)) else Inl E)"
    by simp
  moreover have "g a = (if c a then Inr (f a) else Inl E)"
    using Cons.prems by simp
  ultimately show ?case by simp
qed

lemma foldr_max_le: "foldr max (map h xs) 0 \<le> (k::nat) \<longleftrightarrow> (\<forall>x\<in>set xs. h x \<le> k)"
  by (induction xs) auto

lemma height_pos: "0 < height n"
  by (cases n) simp

lemma stack_refines:
  "generateFolderContentStack frames rt n p l
     = (if height n \<le> frames then Inr (generateFolderContent rt n p l) else Inl stackOverflow)"
proof (induction frames arbitrary: n p l)
  case 0
  then show ?case using height_pos[of n] by simp
next
  case (Suc frames)
  obtain nm descr its req resp where n: "n = Node nm descr its req resp" by (cases n)
  show ?case
  proof (cases its)
    case None
    then show ?thesis by (simp add: n Let_def)
  next
    case (Some subItems)
    let ?g = "\<lambda>subItem. if isFolder subItem then
                 generateFolderContentStack frames rt subItem (p @ [nm]) (min (l + 1) 6)
               else Inr (generateEndpointContent rt (p @ [nm]) subItem)"
    let ?f = "\<lambda>subItem. if isFolder subItem then
                 generateFolderContent rt subItem (p @ [nm]) (min (l + 1) 6)
               else generateEndpointContent rt (p @ [nm]) subItem"
    let ?c = "\<lambda>subItem. isFolder subItem \<longrightarrow> height subItem \<le> frames"
    have "?g x = (if ?c x then Inr (?f x) else Inl stackOverflow)" for x
      by (simp add: Suc.IH)
    then have c: "collect (map ?g subItems)
        = (if \<forall>x\<in>set subItems. ?c x then Inr (concat (map ?f subItems)) else Inl stackOverflow)"
      by (intro collect_map)
    have h: "height n \<le> Suc frames \<longleftrightarrow> (\<forall>x\<in>set subItems. ?c x)"
      by (auto simp: n Some foldr_max_le)
    show ?thesis
      unfolding h
      by (simp add: n Some Let_def c)
  qed
qed

lemma stack_refines_folders:
  "generateFoldersContentStack frames rt folders
     = (if \<forall>f\<in>set folders. height f \<le> frames then Inr (generateFoldersContent rt folders)
        else Inl stackOverflow)"
  unfolding generateFoldersContentStack_def generateFoldersContent_def
  by (intro collect_map) (simp add: stack_refines)

lemma height_chain: "height (chain (Suc k)) = Suc k"
  by (induction k) (simp_all add: isFolder_def)


lemma headingLevel_Suc: "min (headingLevel d + 1) 6 = headingLevel (Suc d)"
  by (simp add: headingLevel_def)

lemma folder_unfold:
  "generateFolderContent rt (Node nm descr its req resp) p l
     = sectionOpening rt l p (Node nm descr its req resp)
       @ concat (map (\<lambda>subItem.
           if isFolder subItem then generateFolderContent rt subItem (p @ [nm]) (min (l + 1) 6)
           else generateEndpointContent rt (p @ [nm]) subItem)
           (case its of None \<Rightarrow> [] | Some subItems \<Rightarrow> subItems))
       @ [Lit ''</section>'']"
  by (simp add: sectionOpening_def Let_def split: option.splits)

lemma child_in_folder:
  assumes "x \<in> set subItems"
    and "sublist fs (if isFolder x then generateFolderContent rt x (p @ [nm]) (min (l + 1) 6)
                     else generateEndpointContent rt (p @ [nm]) x)"
  shows "sublist fs (generateFolderContent rt (Node nm descr (Some subItems) req resp) p l)"
proof -
  let ?f = "\<lambda>subItem. if isFolder subItem then
                 generateFolderContent rt subItem (p @ [nm]) (min (l + 1) 6)
               else generateEndpointContent rt (p @ [nm]) subItem"
  have "sublist (?f x) (concat (map ?f subItems))"
    using assms(1) by (rule sublist_concat_map)
  with assms(2) have "sublist fs (concat (map ?f subItems))"
    by (rule sublist_trans)
  then have "sublist fs (sectionOpening rt l p (Node nm descr (Some subItems) req resp)
      @ concat (map ?f subItems) @ [Lit ''</section>''])"
    by (rule sublist_in_appends)
  then show ?thesis
    unfolding folder_unfold by simp
qed

lemma folder_in_folder:
  "(d', q, m) \<in> set (foldersOf d p n) \<Longrightarrow>
     sublist (sectionOpening rt (headingLevel d') q m)
       (generateFolderContent rt n p (headingLevel d))"
proof (induction d p n rule: foldersOf.induct)
  case (1 d p nm descr its req resp)
  show ?case
  proof (cases "(d', q, m) = (d, p, Node nm descr its req resp)")
    case True
    then show ?thesis
      unfolding folder_unfold by simp
  next
    case False
    with "1.prems" obtain subItems x where its: "its = Some subItems"
      and x: "x \<in> set (filter isFolder subItems)"
      and m: "(d', q, m) \<in> set (foldersOf (Suc d) (p @ [nm]) x)"
      by (auto split: option.splits)
    have "sublist (sectionOpening rt (headingLevel d') q m)
        (generateFolderContent rt x (p @ [nm]) (headingLevel (Suc d)))"
      using "1.IH"[OF its x m] .
    then have "sublist (sectionOpening rt (headingLevel d') q m)
        (if isFolder x then generateFolderContent rt x (p @ [nm]) (min (headingLevel d + 1) 6)
         else generateEndpointContent rt (p @ [nm]) x)"
      unfolding headingLevel_Suc using x by simp
    moreover from x have "x \<in> set subItems" by simp
    ultimately show ?thesis
      unfolding its by (rule child_in_folder[rotated])
  qed
qed

lemma endpoint_in_folder:
  "(q, e) \<in> set (endpointsOf p n) \<Longrightarrow>
     sublist (generateEndpointContent rt q e) (generateFolderContent rt n p l)"
proof (induction p n arbitrary: l rule: endpointsOf.induct)
  case (1 p nm descr its req resp)
  from "1.prems" obtain subItems x where its: "its = Some subItems"
    and x: "x \<in> set subItems"
    and m: "(q, e) \<in> set (if isFolder x then endpointsOf (p @ [nm]) x else [(p @ [nm], x)])"
    by (auto split: option.splits)
  have "sublist (generateEndpointContent rt q e)
        (if isFolder x then generateFolderContent rt x (p @ [nm]) (min (l + 1) 6)
         else generateEndpointContent rt (p @ [nm]) x)"
  proof (cases "isFolder x")
    case True
    with m have "(q, e) \<in> set (endpointsOf (p @ [nm]) x)" by simp
    from "1.IH"[OF its x True this] True show ?thesis by simp
  next
    case False
    with m show ?thesis by simp
  qed
  with x show ?case
    unfolding its by (rule child_in_folder)
qed

lemma in_folders:
  assumes "f \<in> set folders" and "sublist fs (generateFolderContent rt f [] 2)"
  shows "sublist fs (generateFoldersContent rt folders)"
proof -
  have "sublist (generateFolderContent rt f [] 2)
      (concat (map (\<lambda>folder. generateFolderContent rt folder [] 2) folders))"
    using assms(1) by (rule sublist_concat_map)
  with assms(2) show ?thesis
    unfolding generateFoldersContent_def by (rule sublist_trans)
qed

lemma nodes_listed:
  "length (foldersOf d p n) + length (endpointsOf p n) = countNodes n"
proof (induction d p n rule: foldersOf.induct)
  case (1 d p nm descr its req resp)
  show ?case
  proof (cases its)
    case None
    then show ?thesis by simp
  next
    case (Some subItems)
    have pt: "length (foldersOf (Suc d) (p @ [nm]) x) + length (endpointsOf (p @ [nm]) x)
        = countNodes x" if "x \<in> set (filter isFolder subItems)" for x
      using "1.IH"[OF Some that] .
    have "length (concat (map (foldersOf (Suc d) (p @ [nm])) (filter isFolder subItems)))
        + length (concat (map (\<lambda>subItem.
            if isFolder subItem then endpointsOf (p @ [nm]) subItem
            else [(p @ [nm], subItem)]) subItems))
        = sum_list (map countNodes subItems)"
      using pt
    proof (induction subItems)
      case Nil
      show ?case by simp
    next
      case (Cons a as)
      have ih: "length (concat (map (foldersOf (Suc d) (p @ [nm])) (filter isFolder as)))
        + length (concat (map (\<lambda>subItem.
            if isFolder subItem then endpointsOf (p @ [nm]) subItem
            else [(p @ [nm], subItem)]) as))
        = sum_list (map countNodes as)"
        using Cons.IH Cons.prems by simp
      show ?case
      proof (cases "isFolder a")
        case True
        then have "length (foldersOf (Suc d) (p @ [nm]) a) + length (endpointsOf (p @ [nm]) a)
            = countNodes a"
          using Cons.prems[of a] by simp
        with True ih show ?thesis by simp
      next
        case False
        then have "item a = None" by (simp add: isFolder_def)
        then have "countNodes a = 1" by (cases a) simp
        with False ih show ?thesis by simp
      qed
    qed
    then show ?thesis using Some by simp
  qed
qed

lemma depths_listed: "map fst (foldersOf d p n) = folderDepths d n"
proof (induction d p n rule: foldersOf.induct)
  case (1 d p nm descr its req resp)
  show ?case
  proof (cases its)
    case None
    then show ?thesis by simp
  next
    case (Some subItems)
    have "map fst (foldersOf (Suc d) (p @ [nm]) x) = folderDepths (Suc d) x"
      if "x \<in> set (filter isFolder subItems)" for x
      using "1.IH"[OF Some that] .
    then have "map (\<lambda>x. map fst (foldersOf (Suc d) (p @ [nm]) x)) (filter isFolder subItems)
        = map (folderDepths (Suc d)) (filter isFolder subItems)"
      by (intro map_cong refl)
    then have "concat (map (\<lambda>x. map fst (foldersOf (Suc d) (p @ [nm]) x)) (filter isFolder subItems))
        = concat (map (folderDepths (Suc d)) (filter isFolder subItems))"
      by (rule arg_cong)
    then show ?thesis using Some by (simp add: map_concat o_def)
  qed
qed


lemma endpoint_sections:
  \<open>request e = Some req \<Longrightarrow>
     generateEndpointContent rt q e
       = endpointHeader rt (getEndpointId (Some (PathArray q)) (name e)) e req
         @ queryParamsSection req @ headersSection req @ requestBodySection req
         @ responseExamplesSection rt e @ [Lit ''</div>\<newline>  </div>'']\<close>
  by (simp add: generateEndpointContent_def Let_def)

lemma folder_tags:
  "tags (generateFolderContent rt n p (headingLevel d))
     = concat (map (\<lambda>k. [headingLevel k, headingLevel k]) (folderDepths d n))"
proof (induction d n arbitrary: p rule: folderDepths.induct)
  case (1 d nm descr its req resp)
  show ?case
  proof (cases its)
    case None
    then show ?thesis by (simp add: Let_def)
  next
    case (Some subItems)
    have pt: "tags (generateFolderContent rt x (p @ [nm]) (min (headingLevel d + 1) 6))
        = concat (map (\<lambda>k. [headingLevel k, headingLevel k]) (folderDepths (Suc d) x))"
      if "x \<in> set (filter isFolder subItems)" for x
      unfolding headingLevel_Suc using 1[OF Some that] .
    have "concat (map (\<lambda>subItem. tags (if isFolder subItem then
                    generateFolderContent rt subItem (p @ [nm]) (min (headingLevel d + 1) 6)
                  else generateEndpointContent rt (p @ [nm]) subItem)) subItems)
       = concat (map (\<lambda>k. [headingLevel k, headingLevel k])
           (concat (map (folderDepths (Suc d)) (filter isFolder subItems))))"
      using pt
    proof (induction subItems)
      case Nil show ?case by simp
    next
      case (Cons a as) then show ?case by (cases "isFolder a") auto
    qed
    then show ?thesis using Some by (simp add: Let_def o_def)
  qed
qed

lemma folder_count:
  "length (idents (generateFolderContent rt n p l)) = countNodes n"
proof (induction rt n p l rule: generateFolderContent.induct)
  case (1 rt nm descr its req resp parentPath headerLevel)
  show ?case
  proof (cases its)
    case None
    then show ?thesis by (simp add: Let_def)
  next
    case (Some subItems)
    have pt: "length (idents (if isFolder subItem then
                    generateFolderContent rt subItem (parentPath @ [nm]) (min (headerLevel + 1) 6)
                  else generateEndpointContent rt (parentPath @ [nm]) subItem)) = countNodes subItem"
      if m: "subItem \<in> set subItems" for subItem
    proof (cases "isFolder subItem")
      case True
      moreover from m have "subItems \<noteq> []" by auto
      ultimately show ?thesis using 1[OF refl refl Some _ m] by simp
    next
      case False
      then have "item subItem = None" by (simp add: isFolder_def)
      then have "countNodes subItem = 1" by (cases subItem) simp
      with False show ?thesis by (simp add: idents_endpoint)
    qed
    have "length (concat (map (\<lambda>subItem. idents (if isFolder subItem then
                    generateFolderContent rt subItem (parentPath @ [nm]) (min (headerLevel + 1) 6)
                  else generateEndpointContent rt (parentPath @ [nm]) subItem)) subItems))
        = sum_list (map countNodes subItems)"
      using pt by (induction subItems) auto
    then show ?thesis using Some by (simp add: Let_def o_def)
  qed
qed

text \<open>
  Claim C5, as amended. On a stack with room for \<open>frames\<close> nested calls,
  \<open>generateFoldersContent\<close> returns the content when no folder needs more nested calls than
  that, and throws \<open>RangeError\<close> otherwise. When it returns, the heading of a folder at
  nesting depth \<open>d\<close> has level \<open>headingLevel d\<close>: 2 at the top, one more for each level of
  nesting, and 6 from depth 4 on; no heading level is below 2 or above 6. Every node of the
  tree is rendered, at whatever depth: the folders and the endpoints the walk lists are all
  the nodes of the tree, the content has one identifier for each, the opening of the section
  of every folder, with its heading at its level, is in the content, and so is the whole
  fragment of every endpoint, which for an endpoint with a request is its header, its
  parameter, header and body sections and its response examples.
\<close>

theorem folder_heading_levels:
  \<open>generateFoldersContentStack frames rt folders
     = (if \<forall>f\<in>set folders. height f \<le> frames then Inr (generateFoldersContent rt folders)
        else Inl stackOverflow) \<and>
   tags (generateFoldersContent rt folders)
     = concat (map (\<lambda>d. [headingLevel d, headingLevel d]) (concat (map (folderDepths 0) folders))) \<and>
   headingLevel 0 = 2 \<and>
   (\<forall>d. headingLevel (Suc d) = min (headingLevel d + 1) 6) \<and>
   (\<forall>l\<in>set (tags (generateFoldersContent rt folders)). 2 \<le> l \<and> l \<le> 6) \<and>
   length (idents (generateFoldersContent rt folders)) = sum_list (map countNodes folders) \<and>
   map fst (concat (map (foldersOf 0 []) folders)) = concat (map (folderDepths 0) folders) \<and>
   length (concat (map (foldersOf 0 []) folders)) + length (concat (map (endpointsOf []) folders))
     = sum_list (map countNodes folders) \<and>
   (\<forall>(d, p, n)\<in>set (concat (map (foldersOf 0 []) folders)).
      sublist (sectionOpening rt (headingLevel d) p n) (generateFoldersContent rt folders)) \<and>
   (\<forall>(p, e)\<in>set (concat (map (endpointsOf []) folders)).
      sublist (generateEndpointContent rt p e) (generateFoldersContent rt folders) \<and>
      (\<forall>req. request e = Some req \<longrightarrow>
         sublist
           (endpointHeader rt (getEndpointId (Some (PathArray p)) (name e)) e req
            @ queryParamsSection req @ headersSection req @ requestBodySection req
            @ responseExamplesSection rt e @ [Lit ''</div>\<newline>  </div>''])
           (generateFoldersContent rt folders)))\<close>
proof -
  have h0: "headingLevel 0 = 2" by (simp add: headingLevel_def)
  have k: "generateFoldersContentStack frames rt folders
     = (if \<forall>f\<in>set folders. height f \<le> frames then Inr (generateFoldersContent rt folders)
        else Inl stackOverflow)"
    by (rule stack_refines_folders)
  have t: "tags (generateFoldersContent rt folders)
     = concat (map (\<lambda>d. [headingLevel d, headingLevel d]) (concat (map (folderDepths 0) folders)))"
    unfolding generateFoldersContent_def
    using folder_tags[of rt _ "[]" 0, unfolded h0]
    by (induction folders) simp_all
  have b: "\<forall>l\<in>set (tags (generateFoldersContent rt folders)). 2 \<le> l \<and> l \<le> 6"
    unfolding t by (auto simp: headingLevel_def)
  have c: "length (idents (generateFoldersContent rt folders)) = sum_list (map countNodes folders)"
    unfolding generateFoldersContent_def
    by (induction folders) (simp_all add: folder_count)
  have s: "\<forall>d. headingLevel (Suc d) = min (headingLevel d + 1) 6"
    unfolding headingLevel_def by auto
  have m: "map fst (concat (map (foldersOf 0 []) folders)) = concat (map (folderDepths 0) folders)"
    by (induction folders) (simp_all add: depths_listed)
  have n: "length (concat (map (foldersOf 0 []) folders))
      + length (concat (map (endpointsOf []) folders)) = sum_list (map countNodes folders)"
  proof (induction folders)
    case Nil
    show ?case by simp
  next
    case (Cons a as)
    with nodes_listed[of 0 "[]" a] show ?case by simp
  qed
  have f: "\<forall>(d, p, n)\<in>set (concat (map (foldersOf 0 []) folders)).
      sublist (sectionOpening rt (headingLevel d) p n) (generateFoldersContent rt folders)"
  proof (clarify)
    fix d p n
    assume "(d, p, n) \<in> set (concat (map (foldersOf 0 []) folders))"
    then obtain folder where i: "folder \<in> set folders" and j: "(d, p, n) \<in> set (foldersOf 0 [] folder)"
      by auto
    from folder_in_folder[OF j, of rt]
    have "sublist (sectionOpening rt (headingLevel d) p n) (generateFolderContent rt folder [] 2)"
      unfolding h0 .
    with i show "sublist (sectionOpening rt (headingLevel d) p n) (generateFoldersContent rt folders)"
      by (rule in_folders)
  qed
  have e: \<open>\<forall>(p, e)\<in>set (concat (map (endpointsOf []) folders)).
      sublist (generateEndpointContent rt p e) (generateFoldersContent rt folders) \<and>
      (\<forall>req. request e = Some req \<longrightarrow>
         sublist
           (endpointHeader rt (getEndpointId (Some (PathArray p)) (name e)) e req
            @ queryParamsSection req @ headersSection req @ requestBodySection req
            @ responseExamplesSection rt e @ [Lit ''</div>\<newline>  </div>''])
           (generateFoldersContent rt folders))\<close>
  proof (clarify)
    fix p e
    assume "(p, e) \<in> set (concat (map (endpointsOf []) folders))"
    then obtain folder where i: "folder \<in> set folders" and j: "(p, e) \<in> set (endpointsOf [] folder)"
      by auto
    have 1: "sublist (generateEndpointContent rt p e) (generateFoldersContent rt folders)"
      using i endpoint_in_folder[OF j] by (rule in_folders)
    have \<open>sublist
           (endpointHeader rt (getEndpointId (Some (PathArray p)) (name e)) e req
            @ queryParamsSection req @ headersSection req @ requestBodySection req
            @ responseExamplesSection rt e @ [Lit ''</div>\<newline>  </div>''])
           (generateFoldersContent rt folders)\<close> if "request e = Some req" for req
      using 1 unfolding endpoint_sections[OF that] .
    with 1 show \<open>sublist (generateEndpointContent rt p e) (generateFoldersContent rt folders) \<and>
      (\<forall>req. request e = Some req \<longrightarrow>
         sublist
           (endpointHeader rt (getEndpointId (Some (PathArray p)) (name e)) e req
            @ queryParamsSection req @ headersSection req @ requestBodySection req
            @ responseExamplesSection rt e @ [Lit ''</div>\<newline>  </div>''])
           (generateFoldersContent rt folders))\<close>
      by blast
  qed
  from k t h0 s b c m n f e show ?thesis by blast
qed

theorem folder_heading_levels_witness:
  "height (chain 9) \<le> 9 \<and>
   generateFoldersContentStack 9 plainRuntime [chain 9]
     = Inr (generateFoldersContent plainRuntime [chain 9]) \<and>
   tags (generateFoldersContent plainRuntime [chain 9])
     = [2, 2, 3, 3, 4, 4, 5, 5, 6, 6, 6, 6, 6, 6, 6, 6, 6, 6] \<and>
   6 \<in> set (tags (generateFoldersContent plainRuntime [chain 9])) \<and>
   concat (map (folderDepths 0) [chain 9]) = [0, 1, 2, 3, 4, 5, 6, 7, 8] \<and>
   length (idents (generateFoldersContent plainRuntime [chain 9])) = 10 \<and>
   (0, [], reportsFolder) \<in> set (concat (map (foldersOf 0 []) reports)) \<and>
   sublist (sectionOpening plainRuntime 2 [] reportsFolder)
     (generateFoldersContent plainRuntime reports) \<and>
   ([''Reports''], report) \<in> set (concat (map (endpointsOf []) reports)) \<and>
   request report \<noteq> None \<and>
   sublist (generateEndpointContent plainRuntime [''Reports''] report)
     (generateFoldersContent plainRuntime reports) \<and>
   sublist
     (endpointHeader plainRuntime (getEndpointId (Some (PathArray [''Reports''])) (name report))
        report (the (request report))
      @ queryParamsSection (the (request report)) @ headersSection (the (request report))
      @ requestBodySection (the (request report))
      @ responseExamplesSection plainRuntime report @ [Lit ''</div>\<newline>  </div>''])
     (generateFoldersContent plainRuntime reports)"
proof -
  have hc: "\<forall>f\<in>set [chain 9]. height f \<le> 9"
    using height_chain[of 8] by simp
  have t: "tags (generateFoldersContent plainRuntime [chain 9])
     = [2, 2, 3, 3, 4, 4, 5, 5, 6, 6, 6, 6, 6, 6, 6, 6, 6, 6]"
    by code_simp
  have d: "concat (map (folderDepths 0) [chain 9]) = [0, 1, 2, 3, 4, 5, 6, 7, 8]"
    by code_simp
  have c: "sum_list (map countNodes [chain 9]) = 10"
    by code_simp
  have h0: "headingLevel 0 = 2"
    by (simp add: headingLevel_def)
  have f: "(0, [], reportsFolder) \<in> set (concat (map (foldersOf 0 []) reports))"
    by (simp add: reports_def reportsFolder_def)
  have e: "([''Reports''], report) \<in> set (concat (map (endpointsOf []) reports))"
    by (simp add: reports_def reportsFolder_def report_def isFolder_def)
  obtain req where q: "request report = Some req"
    by (simp add: report_def)
  note * = folder_heading_levels[of 9 plainRuntime "[chain 9]"]
  note ** = folder_heading_levels[of 9 plainRuntime reports]
  have 1: "generateFoldersContentStack 9 plainRuntime [chain 9]
     = Inr (generateFoldersContent plainRuntime [chain 9])"
    using * hc by presburger
  have 2: "6 \<in> set (tags (generateFoldersContent plainRuntime [chain 9]))"
    unfolding t by simp
  have 3: "length (idents (generateFoldersContent plainRuntime [chain 9])) = 10"
    using * c by presburger
  have 4: "sublist (sectionOpening plainRuntime 2 [] reportsFolder)
     (generateFoldersContent plainRuntime reports)"
    using ** f h0 by fastforce
  have 5: "sublist (generateEndpointContent plainRuntime [''Reports''] report)
     (generateFoldersContent plainRuntime reports)"
    using ** e by fastforce
  have 6: \<open>sublist
     (endpointHeader plainRuntime (getEndpointId (Some (PathArray [''Reports''])) (name report))
        report req
      @ queryParamsSection req @ headersSection req @ requestBodySection req
      @ responseExamplesSection plainRuntime report @ [Lit ''</div>\<newline>  </div>''])
     (generateFoldersContent plainRuntime reports)\<close>
    using ** e q by fastforce
  from hc have hc': "height (chain 9) \<le> 9" by simp
  from hc' 1 t 2 d 3 f 4 e q 5 6 show ?thesis by simp
qed

text \<open>
  The claim as written fails where the nesting is deeper than the stack: on a stack with
  room for 2999 nested calls, a chain of 3000 folders throws \<open>RangeError\<close> and nothing is
  rendered.
\<close>

theorem stack_overflow_example:
  "generateFoldersContentStack 2999 plainRuntime [chain 3000] = Inl stackOverflow"
proof -
  have "height (chain (Suc 2999)) = Suc 2999" by (rule height_chain)
  then have "height (chain 3000) = 3000" by simp
  then show ?thesis
    unfolding stack_refines_folders by simp
qed

section \<open>Long response bodies\<close>

lemma split_not_Nil: "split d s \<noteq> []"
  by (induction s) (auto split: list.splits)

lemma length_split: "length (split d s) = Suc (count_list s d)"
  by (induction s) (auto split: list.splits simp: split_not_Nil)

lemma endpoint_with_responses:
  \<open>request e = Some req \<Longrightarrow> response e = Some rs \<Longrightarrow> rs \<noteq> [] \<Longrightarrow>
     generateEndpointContent rt p e
       = endpointHeader rt (getEndpointId (Some (PathArray p)) (name e)) e req
         @ queryParamsSection req @ headersSection req @ requestBodySection req
         @ [Lit ''<div class="params-section">\<newline>      <h4>Response Examples</h4>'']
         @ concat (map (responseExample rt) rs)
         @ [Lit ''</div>'', Lit ''</div>\<newline>  </div>'']\<close>
  by (simp add: generateEndpointContent_def responseExamplesSection_def Let_def)

lemma example_in_endpoint:
  assumes "request e = Some req" "response e = Some rs" "r \<in> set rs"
  shows "sublist (responseExample rt r) (generateEndpointContent rt p e)"
proof -
  from assms(3) have ne: "rs \<noteq> []" by auto
  have "sublist (responseExample rt r) (concat (map (responseExample rt) rs))"
    using assms(3) by (rule sublist_concat_map)
  then have \<open>sublist (responseExample rt r)
     ((endpointHeader rt (getEndpointId (Some (PathArray p)) (name e)) e req
         @ queryParamsSection req @ headersSection req @ requestBodySection req
         @ [Lit ''<div class="params-section">\<newline>      <h4>Response Examples</h4>''])
      @ concat (map (responseExample rt) rs)
      @ [Lit ''</div>'', Lit ''</div>\<newline>  </div>''])\<close>
    by (rule sublist_in_appends)
  then show ?thesis
    unfolding endpoint_with_responses[OF assms(1,2) ne] by simp
qed


lemma example_long:
  assumes t: "truthy (resp_body r)"
    and l: \<open>10 < count_list (formatBody rt (responseLanguage r) (interp (resp_body r))) CHR ''\<newline>'' + 1\<close>
  shows \<open>sublist
     [Lit ''<div class="response-body'', Lit '' collapsed'',
      Lit ''">\<newline>          <pre><code class="language-'', Val (responseLanguage r), Lit ''">'',
      Val (formatBody rt (responseLanguage r) (interp (resp_body r))),
      Lit ''</code></pre>\<newline>        </div>'',
      Lit ''<button class="expand-button">Afficher tout</button>'', Lit ''</div>'']
     (responseExample rt r)\<close>
  using t l
  by (intro suffix_imp_sublist)
     (simp add: responseExample_def responseBodyBlock_def Let_def length_split suffix_def)

lemma example_short:
  assumes t: "truthy (resp_body r)"
    and l: \<open>count_list (formatBody rt (responseLanguage r) (interp (resp_body r))) CHR ''\<newline>'' + 1 \<le> 10\<close>
  shows \<open>sublist
     [Lit ''<div class="response-body'', Lit [],
      Lit ''">\<newline>          <pre><code class="language-'', Val (responseLanguage r), Lit ''">'',
      Val (formatBody rt (responseLanguage r) (interp (resp_body r))),
      Lit ''</code></pre>\<newline>        </div>'', Lit ''</div>'']
     (responseExample rt r)\<close>
  using t l
  by (intro suffix_imp_sublist)
     (simp add: responseExample_def responseBodyBlock_def Let_def length_split suffix_def)

lemma example_body:
  "truthy (resp_body r) \<Longrightarrow>
     Val (formatBody rt (responseLanguage r) (interp (resp_body r))) \<in> set (responseExample rt r)"
  by (simp add: responseExample_def responseBodyBlock_def Let_def)

lemma no_toggle_outside_examples:
  \<open>Lit '' collapsed'' \<notin> set (endpointHeader rt i e req @ queryParamsSection req
      @ headersSection req @ requestBodySection req)
   \<and> Lit ''<button class="expand-button">Afficher tout</button>''
        \<notin> set (endpointHeader rt i e req @ queryParamsSection req
             @ headersSection req @ requestBodySection req)\<close>
  by (auto simp: endpointHeader_def queryParamsSection_def headersSection_def
        requestBodySection_def Let_def split: option.splits if_splits)

lemma example_no_toggle:
  assumes \<open>truthy (resp_body r) \<longrightarrow>
      count_list (formatBody rt (responseLanguage r) (interp (resp_body r))) CHR ''\<newline>'' + 1 \<le> 10\<close>
  shows \<open>Lit '' collapsed'' \<notin> set (responseExample rt r)
     \<and> Lit ''<button class="expand-button">Afficher tout</button>'' \<notin> set (responseExample rt r)\<close>
  using assms
  by (auto simp: responseExample_def responseBodyBlock_def Let_def length_split)


text \<open>
  Claim C6. An endpoint with a request and response examples returns its header, its
  parameter, header and body sections, and then one block for each response example, in
  order. For every example with a body, the number of lines of the formatted body is the
  number of its newline characters plus one, and the formatted body is in what the endpoint
  returns, in full, whatever its length. When the body has more than 10 lines, the returned
  fragments hold the block with the class \<open>collapsed\<close>, the whole body, and the expand
  button right after the block. When it has 10 lines or fewer, they hold the block without
  the class, the whole body, and the end of the example right after the block: no button.
  When no example of the endpoint has more than 10 lines, neither the class nor the button
  is anywhere in what the endpoint returns.
\<close>

theorem long_response_collapsed:
  \<open>(request e = Some req \<and> response e = Some rs \<and> rs \<noteq> [] \<longrightarrow>
      generateEndpointContent rt p e
        = endpointHeader rt (getEndpointId (Some (PathArray p)) (name e)) e req
          @ queryParamsSection req @ headersSection req @ requestBodySection req
          @ [Lit ''<div class="params-section">\<newline>      <h4>Response Examples</h4>'']
          @ concat (map (responseExample rt) rs)
          @ [Lit ''</div>'', Lit ''</div>\<newline>  </div>''])
   \<and> (request e = Some req \<and> response e = Some rs \<and> r \<in> set rs \<and> truthy (resp_body r) \<longrightarrow>
       (let formattedBody = formatBody rt (responseLanguage r) (interp (resp_body r));
            lineCount = count_list formattedBody CHR ''\<newline>'' + 1;
            out = generateEndpointContent rt p e
        in length (split CHR ''\<newline>'' formattedBody) = lineCount
           \<and> Val formattedBody \<in> set out
           \<and> includesText (html out) formattedBody
           \<and> (10 < lineCount \<longrightarrow>
                sublist
                  [Lit ''<div class="response-body'', Lit '' collapsed'',
                   Lit ''">\<newline>          <pre><code class="language-'',
                   Val (responseLanguage r), Lit ''">'', Val formattedBody,
                   Lit ''</code></pre>\<newline>        </div>'',
                   Lit ''<button class="expand-button">Afficher tout</button>'',
                   Lit ''</div>''] out)
           \<and> (lineCount \<le> 10 \<longrightarrow>
                sublist
                  [Lit ''<div class="response-body'', Lit [],
                   Lit ''">\<newline>          <pre><code class="language-'',
                   Val (responseLanguage r), Lit ''">'', Val formattedBody,
                   Lit ''</code></pre>\<newline>        </div>'',
                   Lit ''</div>''] out)))
   \<and> (request e = Some req \<and> response e = Some rs
        \<and> (\<forall>r\<in>set rs. truthy (resp_body r) \<longrightarrow>
              count_list (formatBody rt (responseLanguage r) (interp (resp_body r))) CHR ''\<newline>'' + 1
                \<le> 10) \<longrightarrow>
        Lit '' collapsed'' \<notin> set (generateEndpointContent rt p e)
        \<and> Lit ''<button class="expand-button">Afficher tout</button>''
            \<notin> set (generateEndpointContent rt p e))\<close>
proof -
  have a: \<open>generateEndpointContent rt p e
        = endpointHeader rt (getEndpointId (Some (PathArray p)) (name e)) e req
          @ queryParamsSection req @ headersSection req @ requestBodySection req
          @ [Lit ''<div class="params-section">\<newline>      <h4>Response Examples</h4>'']
          @ concat (map (responseExample rt) rs)
          @ [Lit ''</div>'', Lit ''</div>\<newline>  </div>'']\<close>
    if "request e = Some req" "response e = Some rs" "rs \<noteq> []"
    using that by (rule endpoint_with_responses)
  have b: \<open>let formattedBody = formatBody rt (responseLanguage r) (interp (resp_body r));
            lineCount = count_list formattedBody CHR ''\<newline>'' + 1;
            out = generateEndpointContent rt p e
        in length (split CHR ''\<newline>'' formattedBody) = lineCount
           \<and> Val formattedBody \<in> set out
           \<and> includesText (html out) formattedBody
           \<and> (10 < lineCount \<longrightarrow>
                sublist
                  [Lit ''<div class="response-body'', Lit '' collapsed'',
                   Lit ''">\<newline>          <pre><code class="language-'',
                   Val (responseLanguage r), Lit ''">'', Val formattedBody,
                   Lit ''</code></pre>\<newline>        </div>'',
                   Lit ''<button class="expand-button">Afficher tout</button>'',
                   Lit ''</div>''] out)
           \<and> (lineCount \<le> 10 \<longrightarrow>
                sublist
                  [Lit ''<div class="response-body'', Lit [],
                   Lit ''">\<newline>          <pre><code class="language-'',
                   Val (responseLanguage r), Lit ''">'', Val formattedBody,
                   Lit ''</code></pre>\<newline>        </div>'',
                   Lit ''</div>''] out)\<close>
    if q: "request e = Some req" and rs: "response e = Some rs" and m: "r \<in> set rs"
      and t: "truthy (resp_body r)"
  proof -
    have s: "sublist (responseExample rt r) (generateEndpointContent rt p e)"
      using q rs m by (rule example_in_endpoint)
    then have v: "Val (formatBody rt (responseLanguage r) (interp (resp_body r)))
        \<in> set (generateEndpointContent rt p e)"
      using example_body[OF t, of rt] set_mono_sublist by blast
    then have i: "includesText (html (generateEndpointContent rt p e))
        (formatBody rt (responseLanguage r) (interp (resp_body r)))"
      by (rule html_includes_val)
    show ?thesis
      unfolding Let_def
      using v i sublist_trans[OF example_long[OF t] s] sublist_trans[OF example_short[OF t] s]
      by (simp add: length_split)
  qed
  have c: \<open>Lit '' collapsed'' \<notin> set (generateEndpointContent rt p e)
        \<and> Lit ''<button class="expand-button">Afficher tout</button>''
            \<notin> set (generateEndpointContent rt p e)\<close>
    if q: "request e = Some req" and rs: "response e = Some rs"
      and sh: \<open>\<forall>r\<in>set rs. truthy (resp_body r) \<longrightarrow>
              count_list (formatBody rt (responseLanguage r) (interp (resp_body r))) CHR ''\<newline>'' + 1
                \<le> 10\<close>
  proof -
    have ex: \<open>Lit '' collapsed'' \<notin> set (responseExample rt r)
       \<and> Lit ''<button class="expand-button">Afficher tout</button>'' \<notin> set (responseExample rt r)\<close>
      if "r \<in> set rs" for r
      using sh that by (intro example_no_toggle) blast
    have g: \<open>set (generateEndpointContent rt p e)
       \<subseteq> set (endpointHeader rt (getEndpointId (Some (PathArray p)) (name e)) e req
              @ queryParamsSection req @ headersSection req @ requestBodySection req)
         \<union> (\<Union>r\<in>set rs. set (responseExample rt r))
         \<union> {Lit ''<div class="params-section">\<newline>      <h4>Response Examples</h4>'',
            Lit ''</div>'', Lit ''</div>\<newline>  </div>''}\<close>
      using q rs
      by (auto simp: generateEndpointContent_def responseExamplesSection_def Let_def)
    show ?thesis
      using g ex no_toggle_outside_examples[of rt "getEndpointId (Some (PathArray p)) (name e)" e req]
      by (auto simp del: set_append)
  qed
  from a b c show ?thesis by blast
qed


theorem long_response_collapsed_witness:
  \<open>request report \<noteq> None \<and> response report = Some [fifteenLines, tenLines, noBody] \<and>
   truthy (resp_body fifteenLines) \<and>
   10 < count_list ''1\<newline>2\<newline>3\<newline>4\<newline>5\<newline>6\<newline>7\<newline>8\<newline>9\<newline>10\<newline>11\<newline>12\<newline>13\<newline>14\<newline>15'' CHR ''\<newline>'' + 1 \<and>
   sublist
     [Lit ''<div class="response-body'', Lit '' collapsed'',
      Lit ''">\<newline>          <pre><code class="language-'', Val ''text'', Lit ''">'',
      Val ''1\<newline>2\<newline>3\<newline>4\<newline>5\<newline>6\<newline>7\<newline>8\<newline>9\<newline>10\<newline>11\<newline>12\<newline>13\<newline>14\<newline>15'',
      Lit ''</code></pre>\<newline>        </div>'',
      Lit ''<button class="expand-button">Afficher tout</button>'', Lit ''</div>'']
     (generateEndpointContent plainRuntime [''Reports''] report) \<and>
   includesText (html (generateEndpointContent plainRuntime [''Reports''] report))
     ''1\<newline>2\<newline>3\<newline>4\<newline>5\<newline>6\<newline>7\<newline>8\<newline>9\<newline>10\<newline>11\<newline>12\<newline>13\<newline>14\<newline>15'' \<and>
   truthy (resp_body tenLines) \<and>
   count_list ''1\<newline>2\<newline>3\<newline>4\<newline>5\<newline>6\<newline>7\<newline>8\<newline>9\<newline>10'' CHR ''\<newline>'' + 1 \<le> 10 \<and>
   sublist
     [Lit ''<div class="response-body'', Lit [],
      Lit ''">\<newline>          <pre><code class="language-'', Val ''text'', Lit ''">'',
      Val ''1\<newline>2\<newline>3\<newline>4\<newline>5\<newline>6\<newline>7\<newline>8\<newline>9\<newline>10'',
      Lit ''</code></pre>\<newline>        </div>'', Lit ''</div>'']
     (generateEndpointContent plainRuntime [''Reports''] report) \<and>
   request pingTop \<noteq> None \<and> response pingTop \<noteq> None \<and>
   Lit '' collapsed'' \<notin> set (generateEndpointContent plainRuntime [] pingTop) \<and>
   Lit ''<button class="expand-button">Afficher tout</button>''
     \<notin> set (generateEndpointContent plainRuntime [] pingTop)\<close>
proof -
  define req where "req = \<lparr>req_method = Some ''GET'', req_url = Some (UrlString ''/report''),
      req_header = None, req_body = None, req_description = None\<rparr>"
  define ping where "ping = \<lparr>req_method = Some ''GET'', req_url = Some (UrlString ''/ping''),
      req_header = None, req_body = None, req_description = None\<rparr>"
  define pong where "pong = \<lparr>resp_header = None, resp_previewlanguage = None, resp_body = Some ''pong''\<rparr>"
  have q: "request report = Some req"
    and rs: "response report = Some [fifteenLines, tenLines, noBody]"
    by (simp_all add: report_def req_def)
  have q': "request pingTop = Some ping" and rs': "response pingTop = Some [pong]"
    by (simp_all add: pingTop_def ping_def pong_def)
  have t: "truthy (resp_body fifteenLines)"
    by (simp add: fifteenLines_def truthy_def)
  have lg: "responseLanguage fifteenLines = ''text''" "responseLanguage tenLines = ''text''"
    by (simp_all add: fifteenLines_def tenLines_def responseLanguage_def contentTypeHeader_def
          truthy_def)
  have b: \<open>formatBody plainRuntime ''text'' (interp (resp_body fifteenLines))
      = ''1\<newline>2\<newline>3\<newline>4\<newline>5\<newline>6\<newline>7\<newline>8\<newline>9\<newline>10\<newline>11\<newline>12\<newline>13\<newline>14\<newline>15''\<close>
    by (simp add: fifteenLines_def formatBody_def interp_def)
  have l: \<open>10 < count_list ''1\<newline>2\<newline>3\<newline>4\<newline>5\<newline>6\<newline>7\<newline>8\<newline>9\<newline>10\<newline>11\<newline>12\<newline>13\<newline>14\<newline>15'' CHR ''\<newline>'' + 1\<close>
    by simp
  have t': "truthy (resp_body tenLines)"
    by (simp add: tenLines_def truthy_def)
  have b': \<open>formatBody plainRuntime ''text'' (interp (resp_body tenLines))
      = ''1\<newline>2\<newline>3\<newline>4\<newline>5\<newline>6\<newline>7\<newline>8\<newline>9\<newline>10''\<close>
    by (simp add: tenLines_def formatBody_def interp_def)
  have l': \<open>count_list ''1\<newline>2\<newline>3\<newline>4\<newline>5\<newline>6\<newline>7\<newline>8\<newline>9\<newline>10'' CHR ''\<newline>'' + 1 \<le> 10\<close>
    by simp
  have sh: \<open>\<forall>r\<in>set [pong]. truthy (resp_body r) \<longrightarrow>
      count_list (formatBody plainRuntime (responseLanguage r) (interp (resp_body r))) CHR ''\<newline>'' + 1
        \<le> 10\<close>
    by (simp add: pong_def formatBody_def responseLanguage_def contentTypeHeader_def
          truthy_def interp_def)
  have m: "fifteenLines \<in> set [fifteenLines, tenLines, noBody]"
    "tenLines \<in> set [fifteenLines, tenLines, noBody]"
    by simp_all
  from long_response_collapsed[of report req "[fifteenLines, tenLines, noBody]" plainRuntime
      "[''Reports'']" fifteenLines] q rs m(1) t l
  have 1: \<open>sublist
     [Lit ''<div class="response-body'', Lit '' collapsed'',
      Lit ''">\<newline>          <pre><code class="language-'', Val ''text'', Lit ''">'',
      Val ''1\<newline>2\<newline>3\<newline>4\<newline>5\<newline>6\<newline>7\<newline>8\<newline>9\<newline>10\<newline>11\<newline>12\<newline>13\<newline>14\<newline>15'',
      Lit ''</code></pre>\<newline>        </div>'',
      Lit ''<button class="expand-button">Afficher tout</button>'', Lit ''</div>'']
     (generateEndpointContent plainRuntime [''Reports''] report) \<and>
   includesText (html (generateEndpointContent plainRuntime [''Reports''] report))
     ''1\<newline>2\<newline>3\<newline>4\<newline>5\<newline>6\<newline>7\<newline>8\<newline>9\<newline>10\<newline>11\<newline>12\<newline>13\<newline>14\<newline>15''\<close>
    unfolding Let_def lg b by blast
  from long_response_collapsed[of report req "[fifteenLines, tenLines, noBody]" plainRuntime
      "[''Reports'']" tenLines] q rs m(2) t' l'
  have 2: \<open>sublist
     [Lit ''<div class="response-body'', Lit [],
      Lit ''">\<newline>          <pre><code class="language-'', Val ''text'', Lit ''">'',
      Val ''1\<newline>2\<newline>3\<newline>4\<newline>5\<newline>6\<newline>7\<newline>8\<newline>9\<newline>10'',
      Lit ''</code></pre>\<newline>        </div>'', Lit ''</div>'']
     (generateEndpointContent plainRuntime [''Reports''] report)\<close>
    unfolding Let_def lg b' by blast
  from long_response_collapsed[of pingTop ping "[pong]" plainRuntime "[]" pong] q' rs' sh
  have 3: \<open>Lit '' collapsed'' \<notin> set (generateEndpointContent plainRuntime [] pingTop) \<and>
   Lit ''<button class="expand-button">Afficher tout</button>''
     \<notin> set (generateEndpointContent plainRuntime [] pingTop)\<close>
    by blast
  from 1 2 3 q rs q' rs' t t' l l' show ?thesis by blast
qed

section \<open>An endpoint without a request\<close>

text \<open>
  Claim C7. For an endpoint that has no request, \<open>generateEndpointContent\<close> returns the
  placeholder fragment: the div with the identifier of the endpoint, its name as the title
  and the message that no request information is available. The fragment has no
  parameter, header, body or response section, and the name is the only value inserted.
\<close>

theorem endpoint_without_request:
  \<open>request endpoint = None \<Longrightarrow>
     generateEndpointContent rt parentPath endpoint
       = [Lit ''<div class="endpoint" id="'',
          Ident (getEndpointId (Some (PathArray parentPath)) (name endpoint)),
          Lit ''">\<newline>      <h4>'', Val (name endpoint),
          Lit ''</h4>\<newline>      <p>No request information available.</p>\<newline>    </div>'']
     \<and> (\<forall>s\<in>set (lits (generateEndpointContent rt parentPath endpoint)).
            \<not> includesText s ''params-section'' \<and> \<not> includesText s ''response-example'')
     \<and> vals (generateEndpointContent rt parentPath endpoint) = [name endpoint]\<close>
  by (simp add: generateEndpointContent_def Let_def)

theorem endpoint_without_request_witness:
  \<open>request pingNoRequest = None \<and>
   generateEndpointContent plainRuntime [''Users''] pingNoRequest
     = [Lit ''<div class="endpoint" id="'', Ident ''endpoint-users-ping'',
        Lit ''">\<newline>      <h4>'', Val ''Ping'',
        Lit ''</h4>\<newline>      <p>No request information available.</p>\<newline>    </div>''] \<and>
   ''<div class="endpoint" id="'' \<in> set (lits (generateEndpointContent plainRuntime [''Users''] pingNoRequest)) \<and>
   \<not> includesText ''<div class="endpoint" id="'' ''params-section''\<close>
proof -
  have r: "request pingNoRequest = None" by (simp add: pingNoRequest_def)
  have s1: "slugify ''Users'' = ''users''" by code_simp
  have s2: "slugify ''Ping'' = ''ping''" by code_simp
  have n: "name pingNoRequest = ''Ping''" by (simp add: pingNoRequest_def)
  from endpoint_without_request[OF r, of plainRuntime "[''Users'']"] show ?thesis
    using r by (simp add: n s1 s2)
qed

section \<open>The table of query parameters\<close>

lemma filtered_auth:
  "filteredQueryParams req
     = filter (\<lambda>p. truthy (param_key p) \<and> \<not> isAuthKey p) (queryParams req)"
proof -
  have t: "toLowerCase ''token'' = ''token''" "toLowerCase ''key'' = ''key''"
    by (simp_all add: toLowerCase_def toLowerChar_def)
  show ?thesis
    by (simp add: filteredQueryParams_def isAuthKey_def equalsIgnoringCase_def t)
qed

text \<open>
  Claim C8, as amended. The query parameters left out of the table are exactly those whose
  key is absent or empty and those whose key equals \<open>token\<close> or \<open>key\<close> without regard to
  case. Every other parameter gives one row of its key, its value with the placeholders
  replaced and its HTML-escaped description, in the order of the source; the section is
  absent when no parameter is left.
\<close>

theorem query_parameter_rows:
  "vals (queryParamsSection req)
     = concat (map paramRow (filter (\<lambda>p. truthy (param_key p) \<and> \<not> isAuthKey p) (queryParams req)))
   \<and> (queryParamsSection req = []
        \<longleftrightarrow> filter (\<lambda>p. truthy (param_key p) \<and> \<not> isAuthKey p) (queryParams req) = [])"
  unfolding filtered_auth[symmetric] paramRow_def[abs_def]
  by (simp add: queryParamsSection_def o_def)

theorem query_parameter_rows_witness:
  "vals (queryParamsSection searchRequest)
     = [''q'', ''term'', ''a &lt; b'', ''page'', [], []] \<and>
   queryParamsSection searchRequest \<noteq> []"
proof -
  have f: "filter (\<lambda>p. truthy (param_key p) \<and> \<not> isAuthKey p) (queryParams searchRequest)
      = [\<lparr>param_key = Some ''q'', param_value = Some ''{{term}}'',
                 param_description = Some ''a < b'', param_type = None\<rparr>,
         \<lparr>param_key = Some ''page'', param_value = None,
                 param_description = None, param_type = None\<rparr>]"
    by code_simp
  have r: "paramRow \<lparr>param_key = Some ''q'', param_value = Some ''{{term}}'',
                 param_description = Some ''a < b'', param_type = None\<rparr> = [''q'', ''term'', ''a &lt; b'']"
     "paramRow \<lparr>param_key = Some ''page'', param_value = None,
                 param_description = None, param_type = None\<rparr> = [''page'', [], []]"
    by code_simp+
  from query_parameter_rows[of searchRequest] show ?thesis
    unfolding f by (simp add: r)
qed

text \<open>
  A parameter with an empty key is left out although its key is neither \<open>token\<close> nor \<open>key\<close>.
\<close>

theorem query_parameter_empty_key:
  "queryParams emptyKeyRequest = [emptyKeyParam] \<and>
   \<not> isAuthKey emptyKeyParam \<and>
   queryParamsSection emptyKeyRequest = []"
  by (simp add: emptyKeyRequest_def emptyKeyParam_def queryParams_def isAuthKey_def
        equalsIgnoringCase_def queryParamsSection_def filteredQueryParams_def truthy_def
        interp_def toLowerCase_def)

section \<open>Configuration errors\<close>

lemma validation_error:
  assumes "invalidDivider (opt_divider opts) \<or> nonStringLogo (opt_logo opts)
             \<or> nonStringLanguage (opt_language opts)"
  shows "\<exists>m\<in>set validationMessages. collectionToHTML gen w inputFile opts = (Inl (Error m), w)"
proof -
  have "withDefault (opt_divider opts) Null \<noteq> Null
          \<and> withDefault (opt_divider opts) Null \<notin> set (map Str validDividers)
        \<or> withDefault (opt_logo opts) Null \<noteq> Null \<and> \<not> isString (withDefault (opt_logo opts) Null)
        \<or> \<not> isString (withDefault (opt_language opts) (Str ''en''))"
    using assms
    by (auto simp: invalidDivider_def nonStringLogo_def nonStringLanguage_def withDefault_def)
  then show ?thesis
    unfolding collectionToHTML_def Let_def validationMessages_def
    by (auto simp del: set_map)
qed

lemma cli_language:
  assumes "3 \<le> length argv" "parseArgs (drop 3 argv) defaultArgs = Inr a"
    "cli_language a \<notin> set supportedLanguages"
  shows "cli gen readText w argv
           = (Some 1, say [''Unsupported language: '' @ cli_language a,
                           ''Available languages: en, fr''] w)"
  using assms by (simp add: cli_def Let_def supportedLanguages_def)

lemma cli_divider:
  assumes "3 \<le> length argv" "parseArgs (drop 3 argv) defaultArgs = Inr a"
    "cli_language a \<in> set supportedLanguages"
    "truthy (cli_divider a)" "interp (cli_divider a) \<notin> set validDividers"
  shows "cli gen readText w argv
           = (Some 1, say [''Invalid divider: '' @ interp (cli_divider a),
                           ''Valid dividers: h1, h2, h3, h4, h5, h6''] w)"
  using assms by (simp add: cli_def Let_def validDividers_def)

lemma withDefault_Str: "withDefault (Str s) d = Str s"
  by (simp add: withDefault_def)

lemma language_fallback:
  assumes "passesValidation inputFile (opts\<lparr>opt_language := Str l\<rparr>)"
    "translationFile w l = None" "translationFile w ''en'' \<noteq> None"
  shows "collectionToHTML gen w inputFile (opts\<lparr>opt_language := Str l\<rparr>)
           = collectionToHTML gen
               (say [''Translation file for language '' @ quoted l
                     @ '' not found. Falling back to English.''] w)
               inputFile (opts\<lparr>opt_language := Str ''en''\<rparr>)"
proof -
  define w' where "w' = say [''Translation file for language '' @ quoted l
                     @ '' not found. Falling back to English.''] w"
  obtain f where f: "translationFile w ''en'' = Some f" using assms(3) by auto
  have L: "loadTranslations w l = loadTranslations w' ''en''"
    using assms(2) f by (cases f) (simp_all add: loadTranslations_def w'_def say_def)
  have v: "isString inputFile"
    "isString (withDefault (opt_outputFile opts) (Str ''api-doc.html''))"
    "withDefault (opt_logo opts) Null = Null \<or> isString (withDefault (opt_logo opts) Null)"
    "withDefault (opt_divider opts) Null = Null
       \<or> withDefault (opt_divider opts) Null \<in> set (map Str validDividers)"
    using assms(1)
    by (auto simp: passesValidation_def nonStringLogo_def invalidDivider_def withDefault_def)
  have sel: "\<And>x. opt_logo (opts\<lparr>opt_language := x\<rparr>) = opt_logo opts"
    "\<And>x. opt_divider (opts\<lparr>opt_language := x\<rparr>) = opt_divider opts"
    "\<And>x. opt_outputFile (opts\<lparr>opt_language := x\<rparr>) = opt_outputFile opts"
    "\<And>x. opt_language (opts\<lparr>opt_language := x\<rparr>) = x"
    by simp_all
  show ?thesis
    unfolding w'_def[symmetric] collectionToHTML_def Let_def sel withDefault_Str
    using v by (auto simp add: L simp del: set_map)
qed

text \<open>
  Claim C9, as amended. \<open>collectionToHTML\<close> rejects a divider that is not a heading level, a
  logo that is neither a string nor null and a language that is not a string: it returns
  the error of one of its five checks and has read and written nothing, whatever the
  document generator would do. The command line rejects a language other than \<open>en\<close> and
  \<open>fr\<close> and a non-empty divider that is not a heading level before it calls
  \<open>collectionToHTML\<close>. A language given to \<open>collectionToHTML\<close> as a string that has no
  translation file is not rejected: the conversion goes on as for \<open>en\<close>, after a warning.
\<close>

theorem configuration_rejected:
  "(invalidDivider (opt_divider opts) \<or> nonStringLogo (opt_logo opts)
      \<or> nonStringLanguage (opt_language opts)
     \<longrightarrow> (\<exists>m\<in>set validationMessages.
            collectionToHTML gen w inputFile opts = (Inl (Error m), w)))
   \<and> (3 \<le> length argv \<and> parseArgs (drop 3 argv) defaultArgs = Inr a
        \<and> cli_language a \<notin> set supportedLanguages
     \<longrightarrow> cli gen readText w argv
           = (Some 1, say [''Unsupported language: '' @ cli_language a,
                           ''Available languages: en, fr''] w))
   \<and> (3 \<le> length argv \<and> parseArgs (drop 3 argv) defaultArgs = Inr a
        \<and> cli_language a \<in> set supportedLanguages
        \<and> truthy (cli_divider a) \<and> interp (cli_divider a) \<notin> set validDividers
     \<longrightarrow> cli gen readText w argv
           = (Some 1, say [''Invalid divider: '' @ interp (cli_divider a),
                           ''Valid dividers: h1, h2, h3, h4, h5, h6''] w))
   \<and> (passesValidation inputFile (opts\<lparr>opt_language := Str l\<rparr>)
        \<and> translationFile w l = None \<and> translationFile w ''en'' \<noteq> None
     \<longrightarrow> collectionToHTML gen w inputFile (opts\<lparr>opt_language := Str l\<rparr>)
           = collectionToHTML gen
               (say [''Translation file for language '' @ quoted l
                     @ '' not found. Falling back to English.''] w)
               inputFile (opts\<lparr>opt_language := Str ''en''\<rparr>))"
  using validation_error[where opts = opts and gen = gen and w = w and inputFile = inputFile]
    cli_language[where argv = argv and a = a and gen = gen and readText = readText and w = w]
    cli_divider[where argv = argv and a = a and gen = gen and readText = readText and w = w]
    language_fallback[where inputFile = inputFile and opts = opts and l = l and w = w
      and gen = gen]
  by blast

theorem configuration_rejected_witness:
  "invalidDivider (opt_divider (noOptions\<lparr>opt_divider := Str ''h7'', opt_logo := Num 3\<rparr>)) \<and>
   nonStringLogo (opt_logo (noOptions\<lparr>opt_divider := Str ''h7'', opt_logo := Num 3\<rparr>)) \<and>
   collectionToHTML fixedPage exampleWorld (Str ''collection.json'')
       (noOptions\<lparr>opt_divider := Str ''h7'', opt_logo := Num 3\<rparr>)
     = (Inl (Error ''Logo SVG must be a string or null.''), exampleWorld) \<and>
   parseArgs (drop 3 [''node'', ''cli.js'', ''collection.json'', ''--lang=de''])
       defaultArgs = Inr (defaultArgs\<lparr>cli_language := ''de''\<rparr>) \<and>
   cli fixedPage noTextFile exampleWorld [''node'', ''cli.js'', ''collection.json'', ''--lang=de'']
     = (Some 1, say [''Unsupported language: de'', ''Available languages: en, fr''] exampleWorld) \<and>
   parseArgs (drop 3 [''node'', ''cli.js'', ''collection.json'', ''--divider=h7''])
       defaultArgs = Inr (defaultArgs\<lparr>cli_divider := Some ''h7''\<rparr>) \<and>
   cli fixedPage noTextFile exampleWorld [''node'', ''cli.js'', ''collection.json'', ''--divider=h7'']
     = (Some 1, say [''Invalid divider: h7'', ''Valid dividers: h1, h2, h3, h4, h5, h6'']
                  exampleWorld) \<and>
   passesValidation (Str ''collection.json'') (noOptions\<lparr>opt_language := Str ''de''\<rparr>) \<and>
   translationFile exampleWorld ''de'' = None \<and>
   collectionToHTML fixedPage exampleWorld (Str ''collection.json'')
       (noOptions\<lparr>opt_language := Str ''de''\<rparr>)
     = collectionToHTML fixedPage
         (say [''Translation file for language '' @ quoted ''de''
               @ '' not found. Falling back to English.''] exampleWorld)
         (Str ''collection.json'') (noOptions\<lparr>opt_language := Str ''en''\<rparr>)"
proof -
  let ?bad = "noOptions\<lparr>opt_divider := Str ''h7'', opt_logo := Num 3\<rparr>"
  note c1 = configuration_rejected[where opts = noOptions and gen = fixedPage
      and w = exampleWorld and inputFile = "Str ''collection.json''"
      and argv = "[''node'', ''cli.js'', ''collection.json'', ''--lang=de'']"
      and a = "defaultArgs\<lparr>cli_language := ''de''\<rparr>" and readText = noTextFile
      and l = "''de''"]
  note c2 = configuration_rejected[where opts = ?bad and gen = fixedPage
      and w = exampleWorld and inputFile = "Str ''collection.json''"
      and argv = "[''node'', ''cli.js'', ''collection.json'', ''--divider=h7'']"
      and a = "defaultArgs\<lparr>cli_divider := Some ''h7''\<rparr>" and readText = noTextFile
      and l = "''de''"]
  have d: "invalidDivider (opt_divider ?bad)" and g: "nonStringLogo (opt_logo ?bad)"
    by (simp_all add: invalidDivider_def nonStringLogo_def noOptions_def validDividers_def)
  from c2 d obtain m where "m \<in> set validationMessages"
    and e0: "collectionToHTML fixedPage exampleWorld (Str ''collection.json'') ?bad
       = (Inl (Error m), exampleWorld)"
    by blast
  have e: "collectionToHTML fixedPage exampleWorld (Str ''collection.json'') ?bad
     = (Inl (Error ''Logo SVG must be a string or null.''), exampleWorld)"
    by (simp add: collectionToHTML_def noOptions_def withDefault_def Let_def)
  have p1: "parseArgs (drop 3 [''node'', ''cli.js'', ''collection.json'', ''--lang=de''])
       defaultArgs = Inr (defaultArgs\<lparr>cli_language := ''de''\<rparr>)"
    by (simp add: argValue_def)
  have p2: "parseArgs (drop 3 [''node'', ''cli.js'', ''collection.json'', ''--divider=h7''])
       defaultArgs = Inr (defaultArgs\<lparr>cli_divider := Some ''h7''\<rparr>)"
    by (simp add: argValue_def)
  have v: "passesValidation (Str ''collection.json'') (noOptions\<lparr>opt_language := Str ''de''\<rparr>)"
    by (simp add: passesValidation_def noOptions_def withDefault_def nonStringLanguage_def
          nonStringLogo_def invalidDivider_def)
  have t: "translationFile exampleWorld ''de'' = None" "translationFile exampleWorld ''en'' \<noteq> None"
    by (simp_all add: exampleWorld_def)
  have l1: "cli_language (defaultArgs\<lparr>cli_language := ''de''\<rparr>) \<notin> set supportedLanguages"
    by (simp add: supportedLanguages_def)
  have l2: "cli_language (defaultArgs\<lparr>cli_divider := Some ''h7''\<rparr>) \<in> set supportedLanguages"
    "truthy (cli_divider (defaultArgs\<lparr>cli_divider := Some ''h7''\<rparr>))"
    "interp (cli_divider (defaultArgs\<lparr>cli_divider := Some ''h7''\<rparr>)) \<notin> set validDividers"
    by (simp_all add: supportedLanguages_def defaultArgs_def truthy_def interp_def validDividers_def)
  from c1 p1 l1 have r1: "cli fixedPage noTextFile exampleWorld [''node'', ''cli.js'', ''collection.json'', ''--lang=de'']
     = (Some 1, say [''Unsupported language: de'', ''Available languages: en, fr''] exampleWorld)"
    by simp
  from c2 p2 l2 have r2: "cli fixedPage noTextFile exampleWorld [''node'', ''cli.js'', ''collection.json'', ''--divider=h7'']
     = (Some 1, say [''Invalid divider: h7'', ''Valid dividers: h1, h2, h3, h4, h5, h6'']
                  exampleWorld)"
    by (simp add: interp_def)
  from c1 v t have r3: "collectionToHTML fixedPage exampleWorld (Str ''collection.json'')
       (noOptions\<lparr>opt_language := Str ''de''\<rparr>)
     = collectionToHTML fixedPage
         (say [''Translation file for language '' @ quoted ''de''
               @ '' not found. Falling back to English.''] exampleWorld)
         (Str ''collection.json'') (noOptions\<lparr>opt_language := Str ''en''\<rparr>)"
    by blast
  from d g e p1 r1 p2 r2 v t(1) r3 show ?thesis by blast
qed

text \<open>
  Called with the language \<open>de\<close>, which has no translation file, \<open>collectionToHTML\<close> writes
  the document.
\<close>

theorem unsupported_language_accepted:
  "''de'' \<notin> set supportedLanguages \<and>
   translationFile exampleWorld ''de'' = None \<and>
   fst (collectionToHTML fixedPage exampleWorld (Str ''collection.json'')
          (noOptions\<lparr>opt_language := Str ''de''\<rparr>)) = Inr ''api-doc.html'' \<and>
   written (snd (collectionToHTML fixedPage exampleWorld (Str ''collection.json'')
          (noOptions\<lparr>opt_language := Str ''de''\<rparr>))) = [(''api-doc.html'', ''<html></html>'')]"
  by (simp add: supportedLanguages_def exampleWorld_def fixedPage_def noOptions_def
        collectionToHTML_def loadTranslations_def withDefault_def validDividers_def Let_def)

section \<open>An endpoint at the top level\<close>

lemma generateFoldersContent_append:
  "generateFoldersContent rt (xs @ ys) = generateFoldersContent rt xs @ generateFoldersContent rt ys"
  by (simp add: generateFoldersContent_def)

lemma generateTableOfContents_append:
  "generateTableOfContents (xs @ ys) = generateTableOfContents xs @ generateTableOfContents ys"
  by (simp add: generateTableOfContents_def)

text \<open>
  Claim C10, as amended. A top-level node without the attribute \<open>item\<close> is rendered as a
  folder: in the content it gets a section with a \<open>folder-\<close> identifier that holds its
  heading at level 2 and, when it has a description, the description; in the table of
  contents it gets one entry with the same identifier. Its request and its response examples
  appear in neither.
\<close>

theorem top_level_endpoint:
  \<open>item n = None \<Longrightarrow>
     generateFoldersContent rt (before @ [n] @ after)
       = generateFoldersContent rt before
         @ [Lit ''<section id="'', Ident (''folder-'' @ slugify (name n)),
            Lit ''">\<newline>    <'', Tag 2, Lit ''>'', Val (name n), Lit ''</'', Tag 2, Lit ''>'']
         @ (if truthy (description n) then
              [Lit ''<div class="folder-description">'',
               Val (makeHtml rt (interp (description n))), Lit ''</div>'']
            else [])
         @ [Lit ''</section>'']
         @ generateFoldersContent rt after
     \<and> generateTableOfContents (before @ [n] @ after)
       = generateTableOfContents before
         @ [Lit ''<li><a href="#'', Anchor (''folder-'' @ slugify (name n)), Lit ''">'',
            Val (name n), Lit ''</a>'', Lit ''</li>'']
         @ generateTableOfContents after\<close>
  by (cases n)
     (simp add: generateFoldersContent_append generateTableOfContents_append,
      simp add: generateFoldersContent_def generateTableOfContents_def Let_def)

theorem top_level_endpoint_witness:
  \<open>item pingTop = None \<and>
   generateFoldersContent plainRuntime ([] @ [pingTop] @ [])
     = [Lit ''<section id="'', Ident ''folder-ping'', Lit ''">\<newline>    <'', Tag 2, Lit ''>'',
        Val ''Ping'', Lit ''</'', Tag 2, Lit ''>'', Lit ''<div class="folder-description">'',
        Val ''Health check'', Lit ''</div>'', Lit ''</section>''] \<and>
   generateTableOfContents ([] @ [pingTop] @ [])
     = [Lit ''<li><a href="#'', Anchor ''folder-ping'', Lit ''">'', Val ''Ping'', Lit ''</a>'',
        Lit ''</li>'']\<close>
proof -
  have i: "item pingTop = None" by (simp add: pingTop_def)
  have s: "slugify ''Ping'' = ''ping''" by code_simp
  have e: "\<And>rt :: unit runtime. generateFoldersContent rt [] = []"
    "generateTableOfContents [] = []"
    by (simp_all add: generateFoldersContent_def generateTableOfContents_def)
  from top_level_endpoint[OF i, of plainRuntime "[]" "[]"] show ?thesis
    using i by (simp add: e s pingTop_def truthy_def interp_def plainRuntime_def)
qed

text \<open>
  The section is not the heading alone when the node has a description.
\<close>

theorem top_level_endpoint_description:
  \<open>item pingTop = None \<and>
   Val ''Health check'' \<in> set (generateFoldersContent plainRuntime [pingTop]) \<and>
   generateFoldersContent plainRuntime [pingTop] \<noteq> headingOnlySection pingTop\<close>
  by (simp add: pingTop_def generateFoldersContent_def headingOnlySection_def Let_def
        truthy_def interp_def plainRuntime_def)


end
